theory Spec2Isabelle
  imports Complex_Main "HOL-Library.AList"
begin

section \<open>Wind-turbine data preparation: the notebook's \<open>preProcess\<close> and rename cells\<close>

text \<open>
  The notebook reads a CSV file with pandas, pivots the zone ids into sub-columns,
  optionally adds rolling means of the wind measurements, derives calendar columns and
  returns the frame. The pandas and datetime operations it calls are modelled by their
  documented behaviour on the data the notebook gives them. Measurement values are exact
  rationals and \<open>None\<close> is pandas' NaN (a missing value). Every exception that a step
  can raise is a value \<open>Inl e\<close>.
\<close>

subsection \<open>Values\<close>

datatype error = KeyError | ValueError | IndexError | TypeError | AttributeError

datatype datetime =
  Datetime (year: int) (month: nat) (day: nat) (hour: nat) (minute: nat)

text \<open>The second element of a hierarchical column label: a zone id, or a string
  (the empty string for columns without sub-columns).\<close>

datatype level = LInt int | LStr string

text \<open>A column of a frame, with its dtype.\<close>

datatype series =
  Float64 "rat option list" | Datetime64 "datetime list" | Int64 "int list"

type_synonym frame = "((string \<times> level) \<times> series) list"

text \<open>The frame returned by \<open>read_csv(fname, header=0, parse_dates=[2], index_col=[2,1])\<close>:
  the index is the pair (TIMESTAMP, ZONEID) of each record, the columns are the other
  fields of the file, in file order.\<close>

record long_frame =
  index :: "(datetime \<times> int) list"
  columns :: "(string \<times> rat option list) list"

text \<open>The frame after \<open>unstack\<close>: one row per timestamp.\<close>

record wide_frame =
  windex :: "datetime list"
  wcolumns :: "((string \<times> int) \<times> rat option list) list"

subsection \<open>Python's \<open>str\<close> of an integer\<close>

definition digit_char :: "nat \<Rightarrow> char" where
  "digit_char d = ''0123456789'' ! d"

fun digits :: "nat \<Rightarrow> string" where
  "digits n = (if n < 10 then [digit_char n] else digits (n div 10) @ [digit_char (n mod 10)])"

declare digits.simps [simp del]

definition str_int :: "int \<Rightarrow> string" where
  "str_int i = (if i < 0 then CHR ''-'' # digits (nat (- i)) else digits (nat i))"

fun str_level :: "level \<Rightarrow> string" where
  "str_level (LInt i) = str_int i"
| "str_level (LStr s) = s"

subsection \<open>Calendar arithmetic of \<open>datetime\<close>\<close>

definition is_leap :: "int \<Rightarrow> bool" where
  "is_leap y = (y mod 4 = 0 \<and> (y mod 100 \<noteq> 0 \<or> y mod 400 = 0))"

text \<open>Index 0 is a placeholder, months count from 1.\<close>

definition DAYS_BEFORE_MONTH :: "nat list" where
  "DAYS_BEFORE_MONTH = [0, 0, 31, 59, 90, 120, 151, 181, 212, 243, 273, 304, 334]"

definition DAYS_IN_MONTH :: "nat list" where
  "DAYS_IN_MONTH = [0, 31, 28, 31, 30, 31, 30, 31, 31, 30, 31, 30, 31]"

definition days_in_month :: "int \<Rightarrow> nat \<Rightarrow> nat" where
  "days_in_month y m = (if m = 2 \<and> is_leap y then 29 else DAYS_IN_MONTH ! m)"

definition days_before_month :: "int \<Rightarrow> nat \<Rightarrow> nat" where
  "days_before_month y m = DAYS_BEFORE_MONTH ! m + (if 2 < m \<and> is_leap y then 1 else 0)"

definition days_before_year :: "int \<Rightarrow> int" where
  "days_before_year y = (y - 1) * 365 + (y - 1) div 4 - (y - 1) div 100 + (y - 1) div 400"

definition tm_yday :: "datetime \<Rightarrow> nat" where
  "tm_yday x = days_before_month (year x) (month x) + day x"

definition toordinal :: "datetime \<Rightarrow> int" where
  "toordinal x = days_before_year (year x) + int (tm_yday x)"

text \<open>The position of a timestamp on the time axis, in minutes; timestamps are
  ordered and subtracted by it.\<close>

definition timestamp_value :: "datetime \<Rightarrow> int" where
  "timestamp_value x = (toordinal x * 24 + int (hour x)) * 60 + int (minute x)"

definition valid_datetime :: "datetime \<Rightarrow> bool" where
  "valid_datetime x =
     (1 \<le> month x \<and> month x \<le> 12 \<and> 1 \<le> day x \<and> day x \<le> days_in_month (year x) (month x)
      \<and> hour x < 24 \<and> minute x < 60)"

subsection \<open>The pandas operations of \<open>preProcess\<close>\<close>

text \<open>\<open>df0.fillna(v, inplace=True)\<close>: every missing value of every column becomes \<open>v\<close>.\<close>

definition fill :: "rat \<Rightarrow> rat option \<Rightarrow> rat option" where
  "fill v x = (case x of None \<Rightarrow> Some v | Some y \<Rightarrow> Some y)"

definition fillna :: "rat \<Rightarrow> long_frame \<Rightarrow> long_frame" where
  "fillna v df = df\<lparr>columns := map (\<lambda>(n, xs). (n, map (fill v) xs)) (columns df)\<rparr>"

text \<open>\<open>df0.drop(name, 1)\<close>: drop the column with that label; a label that is not
  there is an error.\<close>

definition drop_column :: "string \<Rightarrow> long_frame \<Rightarrow> error + long_frame" where
  "drop_column name df =
     (if name \<in> set (map fst (columns df))
      then Inr (df\<lparr>columns := filter (\<lambda>c. fst c \<noteq> name) (columns df)\<rparr>)
      else Inl KeyError)"

text \<open>\<open>df0.unstack()\<close>: the inner index level (the zone id) becomes the inner level of
  the columns. The new index holds the distinct timestamps in ascending order, every
  column gets one sub-column per distinct zone id in ascending order, a cell with no
  record is NaN, and an index with a duplicate entry cannot be reshaped.\<close>

definition cell_at :: "(datetime \<times> int) list \<Rightarrow> rat option list \<Rightarrow> datetime \<Rightarrow> int \<Rightarrow> rat option" where
  "cell_at ix xs t z = (case map_of (zip ix xs) (t, z) of None \<Rightarrow> None | Some v \<Rightarrow> v)"

definition row_labels :: "long_frame \<Rightarrow> datetime list" where
  "row_labels df = sort_key timestamp_value (remdups (map fst (index df)))"

definition zone_labels :: "long_frame \<Rightarrow> int list" where
  "zone_labels df = sort (remdups (map snd (index df)))"

definition pivot_column :: "long_frame \<Rightarrow> rat option list \<Rightarrow> int \<Rightarrow> rat option list" where
  "pivot_column df xs z = map (\<lambda>t. cell_at (index df) xs t z) (row_labels df)"

definition unstack :: "long_frame \<Rightarrow> error + wide_frame" where
  "unstack df =
     (if \<not> distinct (index df) then Inl ValueError
      else Inr \<lparr>windex = row_labels df,
                wcolumns = concat (map (\<lambda>(n, xs).
                   map (\<lambda>z. ((n, z), pivot_column df xs z)) (zone_labels df)) (columns df))\<rparr>)"

text \<open>\<open>df1.reset_index()\<close>: the timestamps become the first column, labelled
  \<open>('TIMESTAMP', '')\<close>.\<close>

definition reset_index :: "wide_frame \<Rightarrow> frame" where
  "reset_index df1 =
     ((''TIMESTAMP'', LStr ''''), Datetime64 (windex df1))
     # map (\<lambda>((n, z), xs). ((n, LInt z), Float64 xs)) (wcolumns df1)"

text \<open>\<open>s.subtract(s.shift(+1))\<close> on the timestamps: the first difference, missing in
  the first row.\<close>

definition first_difference :: "datetime list \<Rightarrow> int option list" where
  "first_difference ts =
     map (\<lambda>i. if i = 0 then None
               else Some (timestamp_value (ts ! i) - timestamp_value (ts ! (i - 1))))
       [0..<length ts]"

text \<open>\<open>df[key]\<close> with a full label, and \<open>df.drop(labels, axis=1)\<close>.\<close>

definition getitem :: "frame \<Rightarrow> string \<times> level \<Rightarrow> error + series" where
  "getitem df k = (case map_of df k of None \<Rightarrow> Inl KeyError | Some s \<Rightarrow> Inr s)"

definition drop_labels :: "(string \<times> level) list \<Rightarrow> frame \<Rightarrow> error + frame" where
  "drop_labels ks df =
     (if set ks \<subseteq> set (map fst df) then Inr (filter (\<lambda>c. fst c \<notin> set ks) df)
      else Inl KeyError)"

text \<open>\<open>s.rolling(N, min_periods=minp).mean()\<close>: row \<open>i\<close> looks at the rows
  \<open>i - N + 1, ..., i\<close> that exist, and holds the mean of the values there that are not
  missing, or NaN when there are fewer than \<open>minp\<close> of them.\<close>

definition window_mean :: "nat \<Rightarrow> rat option list \<Rightarrow> rat option" where
  "window_mean minp w =
     (let obs = concat (map (\<lambda>x. case x of None \<Rightarrow> [] | Some y \<Rightarrow> [y]) w)
      in if minp \<le> length obs \<and> obs \<noteq> [] then Some (sum_list obs / of_nat (length obs))
         else None)"

definition rolling_mean :: "nat \<Rightarrow> nat \<Rightarrow> rat option list \<Rightarrow> rat option list" where
  "rolling_mean N minp xs =
     map (\<lambda>i. window_mean minp (drop (i + 1 - N) (take (i + 1) xs))) [0..<length xs]"

fun rolling_mean_series :: "nat \<Rightarrow> nat \<Rightarrow> series \<Rightarrow> error + series" where
  "rolling_mean_series N minp (Float64 xs) = Inr (Float64 (rolling_mean N minp xs))"
| "rolling_mean_series N minp (Int64 xs) =
     Inr (Float64 (rolling_mean N minp (map (\<lambda>x. Some (of_int x)) xs)))"
| "rolling_mean_series N minp (Datetime64 xs) = Inl TypeError"

text \<open>\<open>df[name] = s\<close> with a top-level label on hierarchical columns: every column
  under that label is overwritten, and when there is none a column \<open>(name, '')\<close> is
  appended.\<close>

definition setitem_name :: "string \<Rightarrow> series \<Rightarrow> frame \<Rightarrow> frame" where
  "setitem_name name s df =
     (if name \<in> set (map (fst \<circ> fst) df)
      then map (\<lambda>(k, c). if fst k = name then (k, s) else (k, c)) df
      else df @ [((name, LStr ''''), s)])"

text \<open>\<open>s.map(f)\<close> with a function of a timestamp.\<close>

fun map_datetime :: "(datetime \<Rightarrow> int) \<Rightarrow> series \<Rightarrow> error + series" where
  "map_datetime f (Datetime64 ts) = Inr (Int64 (map f ts))"
| "map_datetime f (Float64 xs) = Inl AttributeError"
| "map_datetime f (Int64 xs) = Inl AttributeError"

text \<open>\<open>df.drop(name, axis=1, level=0)\<close>: drop every column under the top-level label.\<close>

definition drop_level0 :: "string \<Rightarrow> frame \<Rightarrow> error + frame" where
  "drop_level0 name df =
     (if name \<in> set (map (fst \<circ> fst) df) then Inr (filter (\<lambda>c. fst (fst c) \<noteq> name) df)
      else Inl KeyError)"

subsection \<open>\<open>preProcess\<close>\<close>

definition nturbines :: int where
  "nturbines = 10"

definition wind_measurements :: "int list" where
  "wind_measurements = [1, 2, 3, 4, 5, 6, 7, 8, 9, 10]"

text \<open>The loop that drops the wind columns of the zones not listed in
  \<open>wind_measurements\<close>.\<close>

fun drop_unmeasured :: "int list \<Rightarrow> frame \<Rightarrow> error + frame" where
  "drop_unmeasured [] df2 = Inr df2"
| "drop_unmeasured (i # is) df2 =
     (if i \<notin> set wind_measurements
      then (case drop_labels [(''U10'', LInt i), (''V10'', LInt i), (''U100'', LInt i),
                              (''V100'', LInt i)] df2 of
              Inl e \<Rightarrow> Inl e
            | Inr df2' \<Rightarrow> drop_unmeasured is df2')
      else drop_unmeasured is df2)"

definition dname :: "int \<Rightarrow> string" where
  "dname Nroll = ''_rm'' @ str_int Nroll"

text \<open>One assignment \<open>df2[(q + dname, i)] = df2[(q, i)].rolling(Nroll, min_periods=1).mean()\<close>.\<close>

definition add_rolling :: "int \<Rightarrow> string \<Rightarrow> int \<Rightarrow> frame \<Rightarrow> error + frame" where
  "add_rolling Nroll q i df2 =
     (case getitem df2 (q, LInt i) of
        Inl e \<Rightarrow> Inl e
      | Inr s \<Rightarrow>
          (case rolling_mean_series (nat Nroll) 1 s of
             Inl e \<Rightarrow> Inl e
           | Inr r \<Rightarrow> Inr (AList.update (q @ dname Nroll, LInt i) r df2)))"

text \<open>The body of the loop over the zones: U10, U100, V10, V100, in this order.\<close>

definition rolling_zone :: "int \<Rightarrow> int \<Rightarrow> frame \<Rightarrow> error + frame" where
  "rolling_zone Nroll i df2 =
     (case add_rolling Nroll ''U10'' i df2 of Inl e \<Rightarrow> Inl e | Inr a \<Rightarrow>
     (case add_rolling Nroll ''U100'' i a of Inl e \<Rightarrow> Inl e | Inr b \<Rightarrow>
     (case add_rolling Nroll ''V10'' i b of Inl e \<Rightarrow> Inl e | Inr c \<Rightarrow>
      add_rolling Nroll ''V100'' i c)))"

fun rolling_loop :: "int \<Rightarrow> int list \<Rightarrow> frame \<Rightarrow> error + frame" where
  "rolling_loop Nroll [] df2 = Inr df2"
| "rolling_loop Nroll (i # is) df2 =
     (case rolling_zone Nroll i df2 of
        Inl e \<Rightarrow> Inl e
      | Inr df2' \<Rightarrow> rolling_loop Nroll is df2')"

text \<open>The three calendar columns, then the drop of the timestamp column.\<close>

definition calendar :: "frame \<Rightarrow> error + frame" where
  "calendar df2 =
     (case getitem df2 (''TIMESTAMP'', LStr '''') of Inl e \<Rightarrow> Inl e | Inr t1 \<Rightarrow>
     (case map_datetime year t1 of Inl e \<Rightarrow> Inl e | Inr y \<Rightarrow>
      let a = setitem_name ''YEAR'' y df2 in
     (case getitem a (''TIMESTAMP'', LStr '''') of Inl e \<Rightarrow> Inl e | Inr t2 \<Rightarrow>
     (case map_datetime (\<lambda>x. int (tm_yday x)) t2 of Inl e \<Rightarrow> Inl e | Inr d \<Rightarrow>
      let b = setitem_name ''DAYOFYEAR'' d a in
     (case getitem b (''TIMESTAMP'', LStr '''') of Inl e \<Rightarrow> Inl e | Inr t3 \<Rightarrow>
     (case map_datetime (\<lambda>x. int (hour x)) t3 of Inl e \<Rightarrow> Inl e | Inr h \<Rightarrow>
      let c = setitem_name ''HOUR'' h b in
      drop_level0 ''TIMESTAMP'' c))))))"

text \<open>\<open>preProcess(fname, Nroll, keepID)\<close>, from the frame that \<open>read_csv\<close> returns.
  The result is the list of the lines printed, and the frame returned.\<close>

definition preProcess :: "long_frame \<Rightarrow> int \<Rightarrow> bool \<Rightarrow> error + (string list \<times> frame)" where
  "preProcess csv Nroll keepID =
     (let df0 = fillna 0 csv in
     (case (if \<not> keepID then drop_column ''ID'' df0 else Inr df0) of Inl e \<Rightarrow> Inl e | Inr df0 \<Rightarrow>
      let out1 = [if \<not> keepID then ''ID column dropped'' else ''ID column kept''] in
     (case unstack df0 of Inl e \<Rightarrow> Inl e | Inr df1 \<Rightarrow>
      let out2 = out1 @ [''unstacked''];
          df2 = reset_index df1;
          dtimes = first_difference (windex df1);
          Ntimepoints = length (windex df1) in
     (case drop_unmeasured [1..nturbines] df2 of Inl e \<Rightarrow> Inl e | Inr df2 \<Rightarrow>
     (case (if 1 < Nroll then rolling_loop Nroll wind_measurements df2 else Inr df2) of
        Inl e \<Rightarrow> Inl e
      | Inr df2 \<Rightarrow>
      let out3 = out2 @ [if 1 < Nroll
                         then ''Computing rolling means over '' @ str_int Nroll @ '' measurements''
                         else ''No rolling means computed''] in
     (case calendar df2 of Inl e \<Rightarrow> Inl e | Inr df2 \<Rightarrow> Inr (out3, df2)))))))"

subsection \<open>The rename cells\<close>

text \<open>An element of \<open>df.columns.values\<close>: a tuple for hierarchical columns, a string
  once the columns have been renamed.\<close>

datatype item = Tup string level | Str string

fun item0 :: "item \<Rightarrow> error + string" where
  "item0 (Tup f l) = Inr f"
| "item0 (Str s) = (case s of [] \<Rightarrow> Inl IndexError | c # _ \<Rightarrow> Inr [c])"

fun str_item1 :: "item \<Rightarrow> error + string" where
  "str_item1 (Tup f l) = Inr (str_level l)"
| "str_item1 (Str s) = (case s of c # d # _ \<Rightarrow> Inr [d] | _ \<Rightarrow> Inl IndexError)"

text \<open>\<open>item[0]+'_'+str(item[1])\<close>\<close>

definition joined :: "item \<Rightarrow> error + string" where
  "joined it =
     (case item0 it of Inl e \<Rightarrow> Inl e | Inr a \<Rightarrow>
     (case str_item1 it of Inl e \<Rightarrow> Inl e | Inr b \<Rightarrow> Inr (a @ ''_'' @ b)))"

text \<open>\<open>p if p[-1]!='_' else p[:-1]\<close>\<close>

definition strip_underscore :: "string \<Rightarrow> error + string" where
  "strip_underscore p =
     (if p = [] then Inl IndexError
      else if last p \<noteq> CHR ''_'' then Inr p else Inr (butlast p))"

text \<open>A list comprehension \<open>[f(x) for x in xs if c(x)]\<close> whose condition and
  expression can raise.\<close>

fun comprehension :: "('a \<Rightarrow> error + bool) \<Rightarrow> ('a \<Rightarrow> error + 'b) \<Rightarrow> 'a list \<Rightarrow> error + 'b list" where
  "comprehension c f [] = Inr []"
| "comprehension c f (x # xs) =
     (case c x of Inl e \<Rightarrow> Inl e | Inr keep \<Rightarrow>
      if keep
      then (case f x of Inl e \<Rightarrow> Inl e | Inr y \<Rightarrow>
           (case comprehension c f xs of Inl e \<Rightarrow> Inl e | Inr ys \<Rightarrow> Inr (y # ys)))
      else comprehension c f xs)"

definition is_target :: "item \<Rightarrow> error + bool" where
  "is_target it = (case item0 it of Inl e \<Rightarrow> Inl e | Inr a \<Rightarrow> Inr (a = ''TARGETVAR''))"

definition is_predictor :: "item \<Rightarrow> error + bool" where
  "is_predictor it = (case item0 it of Inl e \<Rightarrow> Inl e | Inr a \<Rightarrow> Inr (a \<noteq> ''TARGETVAR''))"

text \<open>The new labels of the testing and solution cells.\<close>

definition rename_test :: "item list \<Rightarrow> error + string list" where
  "rename_test cols =
     (case comprehension (\<lambda>_. Inr True) joined cols of Inl e \<Rightarrow> Inl e | Inr predictors \<Rightarrow>
      comprehension (\<lambda>_. Inr True) strip_underscore predictors)"

text \<open>The new labels of the training cell: \<open>targets+predictors\<close>.\<close>

definition rename_train :: "item list \<Rightarrow> error + string list" where
  "rename_train cols =
     (case comprehension is_predictor joined cols of Inl e \<Rightarrow> Inl e | Inr predictors \<Rightarrow>
     (case comprehension (\<lambda>_. Inr True) strip_underscore predictors of Inl e \<Rightarrow> Inl e
      | Inr predictors \<Rightarrow>
     (case comprehension is_target joined cols of Inl e \<Rightarrow> Inl e | Inr targets \<Rightarrow>
      Inr (targets @ predictors))))"

text \<open>\<open>df.columns = names\<close>: the columns are relabelled by position; the number of
  labels must be the number of columns.\<close>

definition set_columns :: "string list \<Rightarrow> ('k \<times> series) list \<Rightarrow> error + (string \<times> series) list" where
  "set_columns names df =
     (if length names \<noteq> length df then Inl ValueError else Inr (zip names (map snd df)))"

definition columns_values :: "frame \<Rightarrow> item list" where
  "columns_values df = map (\<lambda>((f, l), s). Tup f l) df"

subsection \<open>The input format, and the frame that \<open>preProcess\<close> returns on it\<close>

text \<open>The documented record format: ID, ZONEID, TIMESTAMP, TARGETVAR, U10, V10, U100,
  V100, where TARGETVAR is only present in the training data. ZONEID and TIMESTAMP are
  the index of the frame read.\<close>

definition fields_train :: "string list" where
  "fields_train = [''ID'', ''TARGETVAR'', ''U10'', ''V10'', ''U100'', ''V100'']"

definition fields_test :: "string list" where
  "fields_test = [''ID'', ''U10'', ''V10'', ''U100'', ''V100'']"

definition documented_format :: "long_frame \<Rightarrow> bool" where
  "documented_format csv =
     (map fst (columns csv) = fields_train \<or> map fst (columns csv) = fields_test)"

text \<open>Every zone of \<open>wind_measurements\<close> has a record at some timestamp.\<close>

definition zones_present :: "long_frame \<Rightarrow> bool" where
  "zones_present csv = list_all (\<lambda>z. z \<in> set (map snd (index csv))) wind_measurements"

text \<open>A file in the documented format without a repeated (timestamp, zone) pair.\<close>

definition runnable :: "long_frame \<Rightarrow> bool" where
  "runnable csv = (documented_format csv \<and> distinct (index csv) \<and> zones_present csv)"

text \<open>Every timestamp of the file has a record for each of the ten zones, every
  record has every field, and every timestamp is a date and time of the calendar.\<close>

definition complete :: "long_frame \<Rightarrow> bool" where
  "complete csv =
     (index csv \<noteq> []
      \<and> list_all (\<lambda>t. list_all (\<lambda>z. (t, z) \<in> set (index csv)) wind_measurements)
            (remdups (map fst (index csv)))
      \<and> list_all (\<lambda>c. length (snd c) = length (index csv)) (columns csv)
      \<and> list_all valid_datetime (remdups (map fst (index csv))))"

definition valid_input :: "long_frame \<Rightarrow> bool" where
  "valid_input csv =
     (documented_format csv \<and> distinct (index csv) \<and> complete csv)"

text \<open>The frame \<open>df0\<close> when it is unstacked: missing values filled, and the ID column
  dropped unless it is kept.\<close>

definition prepared :: "long_frame \<Rightarrow> bool \<Rightarrow> long_frame" where
  "prepared csv keepID =
     (if keepID then fillna 0 csv
      else (fillna 0 csv)\<lparr>columns := filter (\<lambda>c. fst c \<noteq> ''ID'') (columns (fillna 0 csv))\<rparr>)"

text \<open>The three groups of columns of the result: the pivoted fields, the rolling
  means in the order the loop adds them, and the calendar columns.\<close>

definition raw_part :: "long_frame \<Rightarrow> frame" where
  "raw_part df0 =
     concat (map (\<lambda>(n, xs).
        map (\<lambda>z. ((n, LInt z), Float64 (pivot_column df0 xs z))) (zone_labels df0)) (columns df0))"

definition wind_fields :: "string list" where
  "wind_fields = [''U10'', ''U100'', ''V10'', ''V100'']"

definition rolling_column :: "int \<Rightarrow> long_frame \<Rightarrow> int \<Rightarrow> string \<Rightarrow> frame" where
  "rolling_column Nroll df0 i q =
     (case map_of (columns df0) q of
        None \<Rightarrow> []
      | Some xs \<Rightarrow>
          [((q @ dname Nroll, LInt i),
            Float64 (rolling_mean (nat Nroll) 1 (pivot_column df0 xs i)))])"

definition rolling_part :: "int \<Rightarrow> long_frame \<Rightarrow> frame" where
  "rolling_part Nroll df0 =
     (if 1 < Nroll
      then concat (map (\<lambda>i. concat (map (rolling_column Nroll df0 i) wind_fields))
             wind_measurements)
      else [])"

definition calendar_part :: "long_frame \<Rightarrow> frame" where
  "calendar_part df0 =
     [((''YEAR'', LStr ''''), Int64 (map year (row_labels df0))),
      ((''DAYOFYEAR'', LStr ''''), Int64 (map (\<lambda>x. int (tm_yday x)) (row_labels df0))),
      ((''HOUR'', LStr ''''), Int64 (map (\<lambda>x. int (hour x)) (row_labels df0)))]"

definition progress :: "int \<Rightarrow> bool \<Rightarrow> string list" where
  "progress Nroll keepID =
     [if keepID then ''ID column kept'' else ''ID column dropped'',
      ''unstacked'',
      if 1 < Nroll then ''Computing rolling means over '' @ str_int Nroll @ '' measurements''
      else ''No rolling means computed'']"

subsection \<open>The cells that call \<open>preProcess\<close>\<close>

text \<open>The training cell for the Feather file: preprocess with the cell's parameters,
  compute the new labels, and assign them to the columns.\<close>

definition training_feather :: "long_frame \<Rightarrow> error + (string \<times> series) list" where
  "training_feather train_csv =
     (case preProcess train_csv 3 False of
        Inl e \<Rightarrow> Inl e
      | Inr (out, train_df) \<Rightarrow>
          (case rename_train (columns_values train_df) of
             Inl e \<Rightarrow> Inl e
           | Inr names \<Rightarrow> set_columns names train_df))"

subsection \<open>Observing a result\<close>

definition printed :: "error + (string list \<times> frame) \<Rightarrow> error + string list" where
  "printed r = (case r of Inl e \<Rightarrow> Inl e | Inr (out, df) \<Rightarrow> Inr out)"

definition column_of :: "error + (string list \<times> frame) \<Rightarrow> string \<times> level \<Rightarrow> error + series option" where
  "column_of r key = (case r of Inl e \<Rightarrow> Inl e | Inr (out, df) \<Rightarrow> Inr (map_of df key))"

fun series_length :: "series \<Rightarrow> nat" where
  "series_length (Float64 xs) = length xs"
| "series_length (Datetime64 ts) = length ts"
| "series_length (Int64 xs) = length xs"

subsection \<open>Example files\<close>

text \<open>A training file: three hours, ten zones each, the hours not in order; the first
  record has no ID.\<close>

definition ex_csv :: long_frame where
  "ex_csv =
     \<lparr>index = concat (map (\<lambda>t. map (Pair t) [1, 2, 3, 4, 5, 6, 7, 8, 9, 10])
                [Datetime 2012 1 1 2 0, Datetime 2012 1 1 1 0, Datetime 2012 1 1 3 0]),
      columns =
        [(''ID'', None # map (\<lambda>i. Some (of_nat i)) [2..<31]),
         (''TARGETVAR'', replicate 30 (Some (1 / 2))),
         (''U10'', map (\<lambda>i. Some (of_nat i)) [0..<30]),
         (''V10'', replicate 30 (Some 1)),
         (''U100'', replicate 30 (Some 2)),
         (''V100'', replicate 30 (Some 3))]\<rparr>"

text \<open>A testing file with a gap: the ten zones at 01:00 and at 03:00.\<close>

definition ex_gap :: long_frame where
  "ex_gap =
     \<lparr>index = concat (map (\<lambda>t. map (Pair t) [1, 2, 3, 4, 5, 6, 7, 8, 9, 10])
                [Datetime 2012 1 1 1 0, Datetime 2012 1 1 3 0]),
      columns =
        [(''ID'', map (\<lambda>i. Some (of_nat i)) [1..<21]),
         (''U10'', replicate 20 (Some 1)),
         (''V10'', replicate 20 (Some 1)),
         (''U100'', replicate 20 (Some 2)),
         (''V100'', replicate 20 (Some 3))]\<rparr>"

text \<open>A testing file in which the second hour has a record for zone 1 only.\<close>

definition ex_missing :: long_frame where
  "ex_missing =
     \<lparr>index = map (Pair (Datetime 2012 1 1 1 0)) [1, 2, 3, 4, 5, 6, 7, 8, 9, 10]
                @ [(Datetime 2012 1 1 2 0, 1)],
      columns =
        [(''ID'', map (\<lambda>i. Some (of_nat i)) [1..<12]),
         (''U10'', map (\<lambda>i. Some (of_nat i)) [1..<12]),
         (''V10'', replicate 11 (Some 1)),
         (''U100'', replicate 11 (Some 2)),
         (''V100'', replicate 11 (Some 3))]\<rparr>"

text \<open>A testing file in which the record of zone 1 at 01:00 occurs twice.\<close>

definition ex_duplicate :: long_frame where
  "ex_duplicate =
     \<lparr>index = map (Pair (Datetime 2012 1 1 1 0)) [1, 1, 2, 3, 4, 5, 6, 7, 8, 9, 10],
      columns =
        [(''ID'', map (\<lambda>i. Some (of_nat i)) [1..<12]),
         (''U10'', replicate 11 (Some 1)),
         (''V10'', replicate 11 (Some 1)),
         (''U100'', replicate 11 (Some 2)),
         (''V100'', replicate 11 (Some 3))]\<rparr>"

section \<open>Properties\<close>

subsection \<open>The steps of \<open>preProcess\<close>\<close>

lemma drop_unmeasured_listed:
  "set zs \<subseteq> set wind_measurements \<Longrightarrow> drop_unmeasured zs df = Inr df"
  by (induction zs) auto

lemma turbines_upto: "[1..nturbines] = wind_measurements"
  by (simp add: nturbines_def wind_measurements_def upto_rec1)

lemma drop_unmeasured_all: "drop_unmeasured [1..nturbines] df = Inr df"
  by (simp add: turbines_upto drop_unmeasured_listed)

lemma index_fillna: "index (fillna v df) = index df"
  by (simp add: fillna_def)

lemma index_prepared: "index (prepared csv keepID) = index csv"
  by (simp add: prepared_def fillna_def)

lemma names_fillna: "map fst (columns (fillna v df)) = map fst (columns df)"
  by (simp add: fillna_def case_prod_beta comp_def)

lemma drop_or_keep:
  "keepID \<or> ''ID'' \<in> set (map fst (columns csv)) \<Longrightarrow>
   (if \<not> keepID then drop_column ''ID'' (fillna 0 csv) else Inr (fillna 0 csv))
     = Inr (prepared csv keepID)"
  by (auto simp: drop_column_def prepared_def names_fillna simp del: set_map)

lemma row_labels_prepared: "row_labels (prepared csv keepID) = row_labels csv"
  by (simp add: row_labels_def index_prepared)

lemma zone_labels_prepared: "zone_labels (prepared csv keepID) = zone_labels csv"
  by (simp add: zone_labels_def index_prepared)

lemma reset_index_unstack:
  "distinct (index df0) \<Longrightarrow>
   \<exists>df1. unstack df0 = Inr df1 \<and> windex df1 = row_labels df0
     \<and> reset_index df1 = ((''TIMESTAMP'', LStr ''''), Datetime64 (row_labels df0)) # raw_part df0"
  by (simp add: unstack_def reset_index_def raw_part_def map_concat comp_def split_def)

lemma map_of_zone_row:
  "map_of (map (\<lambda>z. ((n', LInt z), g z)) zs) (n, LInt z)
     = (if n = n' \<and> z \<in> set zs then Some (g z) else None)"
  by (induction zs) auto

lemma map_of_pivoted:
  "map_of (concat (map (\<lambda>(n, xs). map (\<lambda>z. ((n, LInt z), G xs z)) zs) cols)) (n, LInt z)
     = (if z \<in> set zs then map_option (\<lambda>xs. G xs z) (map_of cols n) else None)"
  by (induction cols) (auto simp: map_of_zone_row map_add_def split: option.splits if_splits)

lemma map_of_raw_part:
  "map_of (raw_part df0) (n, LInt z)
     = (if z \<in> set (zone_labels df0)
        then map_option (\<lambda>xs. Float64 (pivot_column df0 xs z)) (map_of (columns df0) n)
        else None)"
  unfolding raw_part_def by (rule map_of_pivoted)

lemma keys_raw_part:
  "k \<in> fst ` set (raw_part df0) \<Longrightarrow>
   fst k \<in> fst ` set (columns df0) \<and> (\<exists>z. snd k = LInt z \<and> z \<in> set (zone_labels df0))"
  by (auto simp: raw_part_def) force

lemma update_append:
  "k \<notin> fst ` set al \<Longrightarrow> AList.update k v al = al @ [(k, v)]"
  by (induction al) auto

lemma add_rolling_append:
  assumes "map_of df (q, LInt i) = Some (Float64 xs)"
    and "(q @ dname N, LInt i) \<notin> fst ` set df"
  shows "add_rolling N q i df
           = Inr (df @ [((q @ dname N, LInt i), Float64 (rolling_mean (nat N) 1 xs))])"
  using assms by (simp add: add_rolling_def getitem_def update_append)

lemma map_of_append_left:
  "map_of B k = Some v \<Longrightarrow> map_of (B @ X) k = Some v"
  by (simp add: map_add_def)

lemma calendar_closed:
  assumes "\<forall>k \<in> fst ` set X. fst k \<notin> {''TIMESTAMP'', ''YEAR'', ''DAYOFYEAR'', ''HOUR''}"
  shows "calendar (((''TIMESTAMP'', LStr ''''), Datetime64 ts) # X)
           = Inr (X @ [((''YEAR'', LStr ''''), Int64 (map year ts)),
                       ((''DAYOFYEAR'', LStr ''''), Int64 (map (\<lambda>x. int (tm_yday x)) ts)),
                       ((''HOUR'', LStr ''''), Int64 (map (\<lambda>x. int (hour x)) ts))])"
proof -
  have keep: "filter (\<lambda>c. fst (fst c) \<noteq> ''TIMESTAMP'') X = X"
    using assms by (auto simp: filter_id_conv)
  have y: "''YEAR'' \<notin> (fst \<circ> fst) ` set X" and d: "''DAYOFYEAR'' \<notin> (fst \<circ> fst) ` set X"
    and h: "''HOUR'' \<notin> (fst \<circ> fst) ` set X"
    using assms by auto
  show ?thesis
    using y d h by (simp add: calendar_def getitem_def setitem_name_def drop_level0_def keep)
qed

subsection \<open>The loop that adds the rolling means\<close>

lemma rolling_zone_append:
  assumes raw: "\<And>q. q \<in> set wind_fields \<Longrightarrow>
             \<exists>xs. map_of (columns df0) q = Some xs
               \<and> map_of B (q, LInt i) = Some (Float64 (pivot_column df0 xs i))"
    and fresh: "\<And>q. q \<in> set wind_fields \<Longrightarrow> (q @ dname N, LInt i) \<notin> fst ` set B"
  shows "rolling_zone N i B = Inr (B @ concat (map (rolling_column N df0 i) wind_fields))"
proof -
  obtain x1 where x1: "map_of (columns df0) ''U10'' = Some x1"
      "map_of B (''U10'', LInt i) = Some (Float64 (pivot_column df0 x1 i))"
    using raw [of "''U10''"] by (auto simp: wind_fields_def)
  obtain x2 where x2: "map_of (columns df0) ''U100'' = Some x2"
      "map_of B (''U100'', LInt i) = Some (Float64 (pivot_column df0 x2 i))"
    using raw [of "''U100''"] by (auto simp: wind_fields_def)
  obtain x3 where x3: "map_of (columns df0) ''V10'' = Some x3"
      "map_of B (''V10'', LInt i) = Some (Float64 (pivot_column df0 x3 i))"
    using raw [of "''V10''"] by (auto simp: wind_fields_def)
  obtain x4 where x4: "map_of (columns df0) ''V100'' = Some x4"
      "map_of B (''V100'', LInt i) = Some (Float64 (pivot_column df0 x4 i))"
    using raw [of "''V100''"] by (auto simp: wind_fields_def)
  have f1: "(''U10'' @ dname N, LInt i) \<notin> fst ` set B"
    and f2: "(''U100'' @ dname N, LInt i) \<notin> fst ` set B"
    and f3: "(''V10'' @ dname N, LInt i) \<notin> fst ` set B"
    and f4: "(''V100'' @ dname N, LInt i) \<notin> fst ` set B"
    using fresh [of "''U10''"] fresh [of "''U100''"] fresh [of "''V10''"] fresh [of "''V100''"]
    by (simp_all add: wind_fields_def)
  let ?c1 = "((''U10'' @ dname N, LInt i), Float64 (rolling_mean (nat N) 1 (pivot_column df0 x1 i)))"
  let ?c2 = "((''U100'' @ dname N, LInt i), Float64 (rolling_mean (nat N) 1 (pivot_column df0 x2 i)))"
  let ?c3 = "((''V10'' @ dname N, LInt i), Float64 (rolling_mean (nat N) 1 (pivot_column df0 x3 i)))"
  let ?c4 = "((''V100'' @ dname N, LInt i), Float64 (rolling_mean (nat N) 1 (pivot_column df0 x4 i)))"
  have s1: "add_rolling N ''U10'' i B = Inr (B @ [?c1])"
    using x1(2) f1 by (rule add_rolling_append)
  have s2: "add_rolling N ''U100'' i (B @ [?c1]) = Inr ((B @ [?c1]) @ [?c2])"
    by (rule add_rolling_append) (use x2(2) f2 in \<open>auto simp: map_add_def dname_def\<close>)
  have s3: "add_rolling N ''V10'' i (B @ [?c1, ?c2]) = Inr ((B @ [?c1, ?c2]) @ [?c3])"
    by (rule add_rolling_append) (use x3(2) f3 in \<open>auto simp: map_add_def dname_def\<close>)
  have s4: "add_rolling N ''V100'' i (B @ [?c1, ?c2, ?c3]) = Inr ((B @ [?c1, ?c2, ?c3]) @ [?c4])"
    by (rule add_rolling_append) (use x4(2) f4 in \<open>auto simp: map_add_def dname_def\<close>)
  show ?thesis
    using s1 s2 s3 s4 x1(1) x2(1) x3(1) x4(1)
    by (simp add: rolling_zone_def rolling_column_def wind_fields_def)
qed

lemma keys_rolling_column:
  "k \<in> fst ` set (rolling_column N df0 i q) \<Longrightarrow> k = (q @ dname N, LInt i)"
  by (auto simp: rolling_column_def split: option.splits)

lemma rolling_loop_append:
  assumes raw: "\<And>q i. q \<in> set wind_fields \<Longrightarrow> i \<in> set zs \<Longrightarrow>
             \<exists>xs. map_of (columns df0) q = Some xs
               \<and> map_of B (q, LInt i) = Some (Float64 (pivot_column df0 xs i))"
    and fresh: "\<And>q i. q \<in> set wind_fields \<Longrightarrow> i \<in> set zs \<Longrightarrow>
             (q @ dname N, LInt i) \<notin> fst ` set (B @ acc)"
    and "distinct zs"
  shows "rolling_loop N zs (B @ acc)
           = Inr (B @ acc @ concat (map (\<lambda>i. concat (map (rolling_column N df0 i) wind_fields)) zs))"
  using assms
proof (induction zs arbitrary: acc)
  case Nil
  then show ?case by simp
next
  case (Cons i zs)
  let ?new = "concat (map (rolling_column N df0 i) wind_fields)"
  have zone: "rolling_zone N i (B @ acc) = Inr ((B @ acc) @ ?new)"
  proof (rule rolling_zone_append)
    fix q assume q: "q \<in> set wind_fields"
    from Cons.prems(1) [OF q, of i] obtain xs where
      "map_of (columns df0) q = Some xs" "map_of B (q, LInt i) = Some (Float64 (pivot_column df0 xs i))"
      by auto
    then show "\<exists>xs. map_of (columns df0) q = Some xs
        \<and> map_of (B @ acc) (q, LInt i) = Some (Float64 (pivot_column df0 xs i))"
      by (auto simp: map_add_def)
  next
    fix q assume "q \<in> set wind_fields"
    then show "(q @ dname N, LInt i) \<notin> fst ` set (B @ acc)"
      using Cons.prems(2) [of q i] by simp
  qed
  have rest: "rolling_loop N zs (B @ (acc @ ?new))
      = Inr (B @ (acc @ ?new) @ concat (map (\<lambda>i. concat (map (rolling_column N df0 i) wind_fields)) zs))"
  proof (rule Cons.IH)
    fix q j assume "q \<in> set wind_fields" "j \<in> set zs"
    then show "\<exists>xs. map_of (columns df0) q = Some xs
        \<and> map_of B (q, LInt j) = Some (Float64 (pivot_column df0 xs j))"
      using Cons.prems(1) [of q j] by simp
  next
    fix q j assume qj: "q \<in> set wind_fields" "j \<in> set zs"
    have "j \<noteq> i" using qj(2) Cons.prems(3) by auto
    then have "(q @ dname N, LInt j) \<notin> fst ` set ?new"
      by (auto dest!: keys_rolling_column [OF imageI])
    moreover have "(q @ dname N, LInt j) \<notin> fst ` set (B @ acc)"
      using Cons.prems(2) [of q j] qj by simp
    ultimately show "(q @ dname N, LInt j) \<notin> fst ` set (B @ acc @ ?new)"
      by auto
  next
    show "distinct zs" using Cons.prems(3) by simp
  qed
  show ?case using zone rest by simp
qed

subsection \<open>The frame returned for a file in the documented format\<close>

lemma names_prepared:
  "map fst (columns (prepared csv k))
     = (if k then map fst (columns csv) else filter (\<lambda>n. n \<noteq> ''ID'') (map fst (columns csv)))"
  by (simp add: prepared_def fillna_def filter_map comp_def split_def)

lemma documented_prepared:
  assumes "documented_format csv"
  shows "set (map fst (columns (prepared csv k))) \<subseteq> set fields_train"
    and "set wind_fields \<subseteq> set (map fst (columns (prepared csv k)))"
  using assms unfolding names_prepared documented_format_def
  by (auto simp: fields_train_def fields_test_def wind_fields_def)

lemma rolling_name_fresh:
  "q \<in> set wind_fields \<Longrightarrow> q @ dname N \<notin> set fields_train"
  "q \<in> set wind_fields \<Longrightarrow>
     q @ dname N \<notin> {''TIMESTAMP'', ''YEAR'', ''DAYOFYEAR'', ''HOUR''}"
  by (auto simp: wind_fields_def fields_train_def dname_def)

lemma field_not_calendar:
  "n \<in> set fields_train \<Longrightarrow> n \<notin> {''TIMESTAMP'', ''YEAR'', ''DAYOFYEAR'', ''HOUR''}"
  by (auto simp: fields_train_def)

lemma zone_labels_set: "set (zone_labels df) = set (map snd (index df))"
  by (simp add: zone_labels_def)

lemma keys_rolling_part:
  "k \<in> fst ` set (rolling_part N df0) \<Longrightarrow>
   \<exists>q \<in> set wind_fields. \<exists>i \<in> set wind_measurements. k = (q @ dname N, LInt i)"
  by (auto simp: rolling_part_def dest!: keys_rolling_column [OF imageI] split: if_splits)

lemma raw_lookup:
  assumes "runnable csv" "q \<in> set wind_fields" "i \<in> set wind_measurements"
  shows "\<exists>xs. map_of (columns (prepared csv k)) q = Some xs
     \<and> map_of (raw_part (prepared csv k)) (q, LInt i)
          = Some (Float64 (pivot_column (prepared csv k) xs i))"
proof -
  have "q \<in> fst ` set (columns (prepared csv k))"
    using documented_prepared(2) [of csv k] assms(1,2) by (auto simp: runnable_def)
  then obtain xs where xs: "map_of (columns (prepared csv k)) q = Some xs"
    by (metis map_of_eq_None_iff not_Some_eq)
  have "i \<in> set (zone_labels (prepared csv k))"
    using assms(1,3) by (simp add: zone_labels_set index_prepared runnable_def zones_present_def list_all_iff)
  then show ?thesis using xs by (simp add: map_of_raw_part)
qed

lemma preProcess_closed:
  assumes "runnable csv"
  shows "preProcess csv N k
    = Inr (progress N k,
           raw_part (prepared csv k) @ rolling_part N (prepared csv k)
             @ calendar_part (prepared csv k))"
proof -
  let ?df0 = "prepared csv k"
  let ?ts = "((''TIMESTAMP'', LStr ''''), Datetime64 (row_labels ?df0))"
  have doc: "documented_format csv" and dist: "distinct (index csv)"
    using assms by (simp_all add: runnable_def)
  have id: "k \<or> ''ID'' \<in> set (map fst (columns csv))"
    using doc by (auto simp: documented_format_def fields_train_def fields_test_def)
  note s1 = drop_or_keep [OF id]
  obtain df1 where df1: "unstack ?df0 = Inr df1" "windex df1 = row_labels ?df0"
    "reset_index df1 = ?ts # raw_part ?df0"
    using reset_index_unstack [of ?df0] dist by (auto simp: index_prepared)
  have rawkeys: "fst kk \<in> set fields_train" if "kk \<in> fst ` set (raw_part ?df0)" for kk
    using keys_raw_part [OF that] documented_prepared(1) [OF doc, of k] by auto
  have loop: "rolling_loop N wind_measurements (?ts # raw_part ?df0)
      = Inr (?ts # raw_part ?df0 @ rolling_part N ?df0)" if "1 < N"
  proof -
    have "rolling_loop N wind_measurements ((?ts # raw_part ?df0) @ [])
      = Inr ((?ts # raw_part ?df0) @ [] @ concat (map (\<lambda>i. concat (map (rolling_column N ?df0 i) wind_fields)) wind_measurements))"
    proof (rule rolling_loop_append)
      fix q i assume qi: "q \<in> set wind_fields" "i \<in> set wind_measurements"
      from raw_lookup [OF assms qi, of k]
      show "\<exists>xs. map_of (columns ?df0) q = Some xs
        \<and> map_of (?ts # raw_part ?df0) (q, LInt i) = Some (Float64 (pivot_column ?df0 xs i))"
        by auto
    next
      fix q i assume qi: "q \<in> set wind_fields" "i \<in> set wind_measurements"
      show "(q @ dname N, LInt i) \<notin> fst ` set ((?ts # raw_part ?df0) @ [])"
        using rawkeys [of "(q @ dname N, LInt i)"] rolling_name_fresh(1) [OF qi(1), of N]
        by auto
    next
      show "distinct wind_measurements" by (simp add: wind_measurements_def)
    qed
    then show ?thesis using that by (simp add: rolling_part_def)
  qed
  have s4: "(if 1 < N then rolling_loop N wind_measurements (?ts # raw_part ?df0)
             else Inr (?ts # raw_part ?df0))
      = Inr (?ts # raw_part ?df0 @ rolling_part N ?df0)"
    using loop by (simp add: rolling_part_def)
  have cal: "calendar (?ts # (raw_part ?df0 @ rolling_part N ?df0))
      = Inr ((raw_part ?df0 @ rolling_part N ?df0) @ calendar_part ?df0)"
    unfolding calendar_part_def
  proof (rule calendar_closed, rule ballI)
    fix kk assume "kk \<in> fst ` set (raw_part ?df0 @ rolling_part N ?df0)"
    then consider "kk \<in> fst ` set (raw_part ?df0)" | "kk \<in> fst ` set (rolling_part N ?df0)"
      by auto
    then show "fst kk \<notin> {''TIMESTAMP'', ''YEAR'', ''DAYOFYEAR'', ''HOUR''}"
    proof cases
      case 1
      then show ?thesis using rawkeys [of kk] field_not_calendar by blast
    next
      case 2
      then show ?thesis using keys_rolling_part [OF 2] rolling_name_fresh(2) by auto
    qed
  qed
  show ?thesis
    unfolding preProcess_def Let_def
    by (simp add: s1 df1 drop_unmeasured_all s4 cal progress_def)
qed

subsection \<open>The example files\<close>

lemma ex_csv_valid: "valid_input ex_csv"
  by code_simp

lemma ex_csv_runnable: "runnable ex_csv"
  by code_simp

lemma ex_gap_runnable: "runnable ex_gap"
  by code_simp

lemma ex_missing_runnable: "runnable ex_missing"
  by code_simp

lemma str_int_3: "str_int 3 = ''3''"
  by (simp add: str_int_def digits.simps digit_char_def)

subsection \<open>The rename cells on labels that are already strings\<close>

lemma comprehension_total:
  "(\<And>x. x \<in> set xs \<Longrightarrow> f x = Inr (g x)) \<Longrightarrow>
   comprehension (\<lambda>_. Inr True) f xs = Inr (map g xs)"
  by (induction xs) auto

lemma comprehension_error:
  "(\<And>x. x \<in> set xs \<Longrightarrow> f x = Inr (g x) \<or> f x = Inl e) \<Longrightarrow>
   \<exists>x \<in> set xs. f x = Inl e \<Longrightarrow>
   comprehension (\<lambda>_. Inr True) f xs = Inl e"
proof (induction xs)
  case Nil
  then show ?case by simp
next
  case (Cons a xs)
  show ?case
  proof (cases "f a")
    case (Inl e')
    then show ?thesis using Cons.prems(1) [of a] by auto
  next
    case (Inr y)
    then have "\<exists>x \<in> set xs. f x = Inl e" using Cons.prems(2) by auto
    then have "comprehension (\<lambda>_. Inr True) f xs = Inl e"
      using Cons.IH Cons.prems(1) by auto
    then show ?thesis using Inr by simp
  qed
qed

lemma joined_Str:
  "joined (Str s) = (if 2 \<le> length s then Inr [s ! 0, CHR ''_'', s ! 1] else Inl IndexError)"
  by (cases s; cases "tl s") (auto simp: joined_def)

lemma strip_joined_Str:
  "strip_underscore [a, CHR ''_'', b] = Inr ([a, CHR ''_''] @ (if b = CHR ''_'' then [] else [b]))"
  by (simp add: strip_underscore_def)

text \<open>
  Claim C3 says that the rename step is idempotent, and leaves the labels of a frame
  whose labels are already strings unchanged. The step computes \<open>item[0]+'_'+str(item[1])\<close>
  for every label; on a string these are its first two characters. As amended: applied
  to labels that are strings, the step replaces each label of two or more characters by
  its first character, an underscore and its second character (the second character is
  left out when it is an underscore), and raises IndexError when a label has fewer than
  two characters.
\<close>

theorem rename_flat_names:
  "rename_test (map Str names)
     = (if list_all (\<lambda>s. 2 \<le> length s) names
        then Inr (map (\<lambda>s. [s ! 0, CHR ''_''] @ (if s ! 1 = CHR ''_'' then [] else [s ! 1])) names)
        else Inl IndexError)"
proof (cases "list_all (\<lambda>s. 2 \<le> length s) names")
  case True
  then have "comprehension (\<lambda>_. Inr True) joined (map Str names)
      = Inr (map (\<lambda>it. case it of Str s \<Rightarrow> [s ! 0, CHR ''_'', s ! 1] | Tup f l \<Rightarrow> []) (map Str names))"
    by (intro comprehension_total) (auto simp: joined_Str list_all_iff)
  moreover have "comprehension (\<lambda>_. Inr True) strip_underscore
       (map (\<lambda>it. case it of Str s \<Rightarrow> [s ! 0, CHR ''_'', s ! 1] | Tup f l \<Rightarrow> []) (map Str names))
      = Inr (map (\<lambda>p. [p ! 0, CHR ''_''] @ (if p ! 2 = CHR ''_'' then [] else [p ! 2]))
          (map (\<lambda>it. case it of Str s \<Rightarrow> [s ! 0, CHR ''_'', s ! 1] | Tup f l \<Rightarrow> []) (map Str names)))"
    by (intro comprehension_total) (auto simp: strip_joined_Str)
  ultimately show ?thesis using True by (simp add: rename_test_def comp_def)
next
  case False
  then have "comprehension (\<lambda>_. Inr True) joined (map Str names) = Inl IndexError"
    by (intro comprehension_error [where g = "\<lambda>it. case it of Str s \<Rightarrow> [s ! 0, CHR ''_'', s ! 1] | Tup f l \<Rightarrow> []"])
       (auto simp: joined_Str list_all_iff split: if_splits)
  then show ?thesis using False by (simp add: rename_test_def)
qed

text \<open>
  Claim C3 as stated fails: the label \<open>('U10', 1)\<close> becomes \<open>U10_1\<close>, and the step
  applied again to \<open>U10_1\<close> gives \<open>U_1\<close>.
\<close>

theorem rename_twice_counterexample:
  "rename_test [Tup ''U10'' (LInt 1)] = Inr [''U10_1'']
   \<and> rename_test [Str ''U10_1''] = Inr [''U_1'']"
  by (simp add: rename_test_def joined_def strip_underscore_def str_int_def digits.simps digit_char_def)

subsection \<open>A window of at most one measurement\<close>

lemma preProcess_no_rolling:
  assumes "Nroll \<le> 1"
  shows "preProcess csv Nroll keepID = preProcess csv 1 keepID"
proof -
  have a: "(1 < Nroll) \<equiv> False" and b: "((1::int) < 1) \<equiv> False"
    using assms by simp_all
  show ?thesis unfolding preProcess_def a b if_False by (rule refl)
qed

text \<open>
  Claim C10: for every \<open>Nroll \<le> 1\<close>, zero and negative values included,
  \<open>preProcess\<close> returns what it returns for \<open>Nroll = 1\<close>, on every input; and for a
  file in the documented format the frame returned has no rolling-mean column: every
  column is a field of the file or a calendar column.
\<close>

theorem window_at_most_one:
  assumes "Nroll \<le> 1"
  shows "preProcess csv Nroll keepID = preProcess csv 1 keepID
    \<and> (runnable csv \<longrightarrow>
         (\<exists>out df. preProcess csv Nroll keepID = Inr (out, df)
            \<and> list_all (\<lambda>c. fst (fst c) \<in> set (fields_train @ [''YEAR'', ''DAYOFYEAR'', ''HOUR''])) df))"
proof (intro conjI impI)
  show "preProcess csv Nroll keepID = preProcess csv 1 keepID"
    using assms by (rule preProcess_no_rolling)
next
  assume run: "runnable csv"
  let ?df = "raw_part (prepared csv keepID) @ calendar_part (prepared csv keepID)"
  have df: "preProcess csv Nroll keepID = Inr (progress Nroll keepID, ?df)"
    using preProcess_closed [OF run, of Nroll keepID] assms by (simp add: rolling_part_def)
  have "fst (fst c) \<in> set (fields_train @ [''YEAR'', ''DAYOFYEAR'', ''HOUR''])" if "c \<in> set ?df" for c
  proof -
    from that consider "fst c \<in> fst ` set (raw_part (prepared csv keepID))"
      | "c \<in> set (calendar_part (prepared csv keepID))" by auto
    then show ?thesis
    proof cases
      case 1
      from keys_raw_part [OF 1] documented_prepared(1) [of csv keepID] run
      show ?thesis by (auto simp: runnable_def)
    next
      case 2
      then show ?thesis by (auto simp: calendar_part_def)
    qed
  qed
  then show "\<exists>out df. preProcess csv Nroll keepID = Inr (out, df)
            \<and> list_all (\<lambda>c. fst (fst c) \<in> set (fields_train @ [''YEAR'', ''DAYOFYEAR'', ''HOUR''])) df"
    using df by (auto simp: list_all_iff)
qed

theorem window_at_most_one_witness:
  "(0::int) \<le> 1 \<and> runnable ex_csv
   \<and> preProcess ex_csv 0 False = preProcess ex_csv 1 False
   \<and> (\<exists>out df. preProcess ex_csv 0 False = Inr (out, df)
        \<and> list_all (\<lambda>c. fst (fst c) \<in> set (fields_train @ [''YEAR'', ''DAYOFYEAR'', ''HOUR''])) df)"
proof -
  have h: "(0::int) \<le> 1" by simp
  show ?thesis
    using h ex_csv_runnable window_at_most_one [OF h, of ex_csv False] by blast
qed

subsection \<open>Rows and columns of the frame returned\<close>

lemma valid_runnable:
  assumes "valid_input csv"
  shows "runnable csv"
proof -
  from assms have ne: "index csv \<noteq> []"
    and all: "list_all (\<lambda>t. list_all (\<lambda>z. (t, z) \<in> set (index csv)) wind_measurements)
            (remdups (map fst (index csv)))"
    by (simp_all add: valid_input_def complete_def)
  from ne obtain t z0 where "(t, z0) \<in> set (index csv)"
    by (cases "index csv") auto
  then have "t \<in> set (remdups (map fst (index csv)))" by force
  with all have "\<forall>z \<in> set wind_measurements. (t, z) \<in> set (index csv)"
    by (auto simp: list_all_iff)
  then have "zones_present csv"
    by (force simp: zones_present_def list_all_iff)
  with assms show ?thesis by (simp add: valid_input_def runnable_def)
qed

lemma length_pivot_column: "length (pivot_column df xs z) = length (row_labels df)"
  by (simp add: pivot_column_def)

lemma length_rolling_mean: "length (rolling_mean N m xs) = length xs"
  by (simp add: rolling_mean_def)

lemma set_row_labels: "set (row_labels df) = fst ` set (index df)"
  by (simp add: row_labels_def)

lemma length_row_labels: "length (row_labels df) = card (fst ` set (index df))"
  by (simp add: row_labels_def length_remdups_card_conv)

lemma distinct_row_labels: "distinct (row_labels df)"
  by (simp add: row_labels_def)

lemma sorted_row_labels: "sorted (map timestamp_value (row_labels df))"
  by (simp add: row_labels_def)

lemma lengths_closed:
  assumes "c \<in> set (raw_part df0 @ rolling_part N df0 @ calendar_part df0)"
  shows "series_length (snd c) = length (row_labels df0)"
proof -
  from assms consider "c \<in> set (raw_part df0)" | "c \<in> set (rolling_part N df0)"
    | "c \<in> set (calendar_part df0)" by auto
  then show ?thesis
  proof cases
    case 1
    then show ?thesis by (auto simp: raw_part_def length_pivot_column)
  next
    case 2
    then show ?thesis
      by (auto simp: rolling_part_def rolling_column_def length_pivot_column length_rolling_mean
          split: if_splits option.splits)
  next
    case 3
    then show ?thesis by (auto simp: calendar_part_def)
  qed
qed

lemma map_of_level_str_raw: "map_of (raw_part df0) (n, LStr s) = None"
proof -
  have "(n, LStr s) \<notin> fst ` set (raw_part df0)"
    using keys_raw_part [of "(n, LStr s)" df0] by auto
  then show ?thesis by (simp add: map_of_eq_None_iff)
qed

lemma map_of_level_str_rolling: "map_of (rolling_part N df0) (n, LStr s) = None"
proof -
  have "(n, LStr s) \<notin> fst ` set (rolling_part N df0)"
    using keys_rolling_part [of "(n, LStr s)" N df0] by auto
  then show ?thesis by (simp add: map_of_eq_None_iff)
qed

lemma map_of_calendar_closed:
  "map_of (raw_part df0 @ rolling_part N df0 @ calendar_part df0) (n, LStr s)
     = map_of (calendar_part df0) (n, LStr s)"
  by (simp add: map_add_def map_of_level_str_raw map_of_level_str_rolling)

lemma no_timestamp_closed:
  assumes "runnable csv"
  shows "''TIMESTAMP'' \<notin> (fst \<circ> fst) `
     set (raw_part (prepared csv k) @ rolling_part N (prepared csv k) @ calendar_part (prepared csv k))"
proof -
  let ?df0 = "prepared csv k"
  have "fst (fst c) \<noteq> ''TIMESTAMP''"
    if "c \<in> set (raw_part ?df0 @ rolling_part N ?df0 @ calendar_part ?df0)" for c
  proof -
    from that consider "fst c \<in> fst ` set (raw_part ?df0)"
      | "fst c \<in> fst ` set (rolling_part N ?df0)" | "c \<in> set (calendar_part ?df0)"
      by auto
    then show ?thesis
    proof cases
      case 1
      from keys_raw_part [OF 1] documented_prepared(1) [of csv k] assms
      show ?thesis by (auto simp: runnable_def fields_train_def)
    next
      case 2
      from keys_rolling_part [OF 2] show ?thesis
        by (auto simp: wind_fields_def dname_def)
    next
      case 3
      then show ?thesis by (auto simp: calendar_part_def)
    qed
  qed
  note no = this
  show ?thesis
  proof
    assume "''TIMESTAMP'' \<in> (fst \<circ> fst) ` set (raw_part ?df0 @ rolling_part N ?df0 @ calendar_part ?df0)"
    then obtain c where c: "c \<in> set (raw_part ?df0 @ rolling_part N ?df0 @ calendar_part ?df0)"
      and eq: "''TIMESTAMP'' = (fst \<circ> fst) c"
      by (rule imageE)
    from no [OF c] eq show False by simp
  qed
qed

subsection \<open>Day of the year\<close>

lemma tm_yday_range:
  assumes "valid_datetime x"
  shows "1 \<le> tm_yday x \<and> tm_yday x \<le> 366"
proof -
  from assms have "1 \<le> month x" "month x \<le> 12"
    by (simp_all add: valid_datetime_def)
  then have "month x = 1 \<or> month x = 2 \<or> month x = 3 \<or> month x = 4 \<or> month x = 5
      \<or> month x = 6 \<or> month x = 7 \<or> month x = 8 \<or> month x = 9 \<or> month x = 10
      \<or> month x = 11 \<or> month x = 12"
    by arith
  then show ?thesis
    using assms
    by (elim disjE)
       (auto simp: valid_datetime_def tm_yday_def days_in_month_def days_before_month_def
          DAYS_IN_MONTH_def DAYS_BEFORE_MONTH_def split: if_splits)
qed

lemma tm_yday_march:
  "tm_yday (Datetime 2024 3 1 h m) = 61" "tm_yday (Datetime 2023 3 1 h m) = 60"
  by (simp_all add: tm_yday_def days_before_month_def DAYS_BEFORE_MONTH_def is_leap_def)

subsection \<open>Timestamps that are not one hour apart\<close>

text \<open>
  Claim C5 says that a warning is emitted when two consecutive timestamps are not one
  hour apart, and that \<open>preProcess\<close> does not fail. The differences are computed, but
  the lines that count and report them are commented out. As amended: for every file in
  the documented format without a repeated record, whatever the differences between its
  timestamps, \<open>preProcess\<close> does not fail, prints its three progress lines and nothing
  else, and returns the full frame, every column with one entry per distinct timestamp.
\<close>

theorem no_warning_on_time_steps:
  assumes "runnable csv"
  shows "\<exists>df. preProcess csv Nroll keepID
           = Inr ([if keepID then ''ID column kept'' else ''ID column dropped'',
                   ''unstacked'',
                   if 1 < Nroll
                   then ''Computing rolling means over '' @ str_int Nroll @ '' measurements''
                   else ''No rolling means computed''], df)
         \<and> list_all (\<lambda>c. series_length (snd c) = length (row_labels csv)) df"
proof -
  let ?df = "raw_part (prepared csv keepID) @ rolling_part Nroll (prepared csv keepID)
     @ calendar_part (prepared csv keepID)"
  have "list_all (\<lambda>c. series_length (snd c) = length (row_labels csv)) ?df"
    unfolding list_all_iff
    using lengths_closed [of _ "prepared csv keepID" Nroll]
    by (auto simp: row_labels_prepared simp del: set_append)
  then show ?thesis
    using preProcess_closed [OF assms, of Nroll keepID] by (simp add: progress_def)
qed

lemma ex_gap_rows: "row_labels ex_gap = [Datetime 2012 1 1 1 0, Datetime 2012 1 1 3 0]"
  by code_simp

lemma ex_gap_length: "length (row_labels ex_gap) = 2"
  by (simp add: ex_gap_rows)

theorem no_warning_on_time_steps_witness:
  "runnable ex_gap
   \<and> (\<exists>df. preProcess ex_gap 3 False
         = Inr ([''ID column dropped'', ''unstacked'',
                 ''Computing rolling means over 3 measurements''], df)
        \<and> list_all (\<lambda>c. series_length (snd c) = 2) df)"
  using no_warning_on_time_steps [OF ex_gap_runnable, of 3 False] ex_gap_runnable
  by (simp add: str_int_3 ex_gap_length)

text \<open>
  Claim C5 as stated fails: the file \<open>ex_gap\<close> has records at 01:00 and at 03:00, a
  difference of 120 minutes, and the lines printed are the three progress lines, none of
  them a warning.
\<close>

theorem time_gap_counterexample:
  "first_difference (row_labels ex_gap) = [None, Some 120]
   \<and> printed (preProcess ex_gap 3 False)
       = Inr [''ID column dropped'', ''unstacked'',
              ''Computing rolling means over 3 measurements'']"
proof
  show "first_difference (row_labels ex_gap) = [None, Some 120]"
    unfolding ex_gap_rows by code_simp
  show "printed (preProcess ex_gap 3 False)
       = Inr [''ID column dropped'', ''unstacked'',
              ''Computing rolling means over 3 measurements'']"
    by (simp add: preProcess_closed [OF ex_gap_runnable] printed_def progress_def str_int_3)
qed

subsection \<open>Repeated and missing records\<close>

lemma duplicate_fails:
  assumes "documented_format csv" "\<not> distinct (index csv)"
  shows "preProcess csv Nroll keepID = Inl ValueError"
proof -
  have id: "keepID \<or> ''ID'' \<in> set (map fst (columns csv))"
    using assms(1) by (auto simp: documented_format_def fields_train_def fields_test_def)
  have "unstack (prepared csv keepID) = Inl ValueError"
    using assms(2) by (simp add: unstack_def index_prepared)
  then show ?thesis
    unfolding preProcess_def Let_def by (simp add: drop_or_keep [OF id])
qed

text \<open>
  Claim C4 says that \<open>preProcess\<close> fails when a timestamp lacks one of the zones or when
  a (timestamp, zone) pair occurs twice. As amended: for a file in the documented format,
  \<open>preProcess\<close> fails, with the ValueError of \<open>unstack\<close> and no frame, when a
  (timestamp, zone) pair occurs more than once; when no pair is repeated and each of the
  ten zones has a record at some timestamp it returns a frame, also when some timestamp
  lacks a zone.
\<close>

theorem duplicate_fails_missing_zone_returns:
  assumes "documented_format csv"
  shows "(\<not> distinct (index csv) \<longrightarrow> preProcess csv Nroll keepID = Inl ValueError)
    \<and> (distinct (index csv) \<and> zones_present csv \<longrightarrow>
         (\<exists>out df. preProcess csv Nroll keepID = Inr (out, df)))"
  using assms duplicate_fails [of csv Nroll keepID] preProcess_closed [of csv Nroll keepID]
  by (auto simp: runnable_def)

lemma ex_duplicate_format: "documented_format ex_duplicate"
  by code_simp

lemma ex_duplicate_index: "\<not> distinct (index ex_duplicate)"
  by code_simp

theorem duplicate_fails_missing_zone_returns_witness:
  "documented_format ex_duplicate \<and> \<not> distinct (index ex_duplicate)
   \<and> preProcess ex_duplicate 3 False = Inl ValueError
   \<and> documented_format ex_missing \<and> distinct (index ex_missing) \<and> zones_present ex_missing
   \<and> (\<exists>out df. preProcess ex_missing 3 False = Inr (out, df))"
  using duplicate_fails_missing_zone_returns [OF ex_duplicate_format, of 3 False]
    ex_duplicate_format ex_duplicate_index ex_missing_runnable
    duplicate_fails_missing_zone_returns [of ex_missing 3 False]
  by (simp add: runnable_def)

text \<open>
  Claim C4 as stated fails: in the file \<open>ex_missing\<close> the timestamp 02:00 has a record
  for zone 1 and none for zone 2, and \<open>preProcess\<close> returns: it prints its three lines,
  and the column \<open>('U10', 2)\<close> of the frame holds the value of 01:00 and a NaN.
\<close>

theorem missing_zone_counterexample:
  "(Datetime 2012 1 1 2 0, 1) \<in> set (index ex_missing)
   \<and> (Datetime 2012 1 1 2 0, 2) \<notin> set (index ex_missing)
   \<and> printed (preProcess ex_missing 3 False)
       = Inr [''ID column dropped'', ''unstacked'',
              ''Computing rolling means over 3 measurements'']
   \<and> column_of (preProcess ex_missing 3 False) (''U10'', LInt 2)
       = Inr (Some (Float64 [Some 2, None]))"
proof (intro conjI)
  show "(Datetime 2012 1 1 2 0, 1) \<in> set (index ex_missing)"
    by (simp add: ex_missing_def)
  show "(Datetime 2012 1 1 2 0, 2) \<notin> set (index ex_missing)"
    by (simp add: ex_missing_def)
  show "printed (preProcess ex_missing 3 False)
       = Inr [''ID column dropped'', ''unstacked'',
              ''Computing rolling means over 3 measurements'']"
    by (simp add: preProcess_closed [OF ex_missing_runnable] printed_def progress_def str_int_3)
  have "map_of (raw_part (prepared ex_missing False)) (''U10'', LInt 2)
      = Some (Float64 [Some 2, None])"
    unfolding map_of_raw_part by code_simp
  then show "column_of (preProcess ex_missing 3 False) (''U10'', LInt 2)
       = Inr (Some (Float64 [Some 2, None]))"
    by (simp add: preProcess_closed [OF ex_missing_runnable] column_of_def map_of_append_left)
qed

subsection \<open>The calendar columns\<close>

lemma ex_csv_rows:
  "row_labels ex_csv = [Datetime 2012 1 1 1 0, Datetime 2012 1 1 2 0, Datetime 2012 1 1 3 0]"
  by code_simp

lemma valid_rows:
  assumes "valid_input csv" "x \<in> set (row_labels csv)"
  shows "valid_datetime x"
  using assms by (auto simp: valid_input_def complete_def list_all_iff set_row_labels)

text \<open>
  Claim C7: for a valid file, the frame returned has the columns YEAR, DAYOFYEAR and
  HOUR, whose entry in each row is the year, the day of the year and the hour of that
  row's timestamp, and it has no column under the label TIMESTAMP. The day of the year
  counts from 1 (1 January is day 1) and is at most 366, the hour is at most 23,
  1 March 2024 is day 61 and 1 March 2023 is day 60.
\<close>

theorem calendar_columns:
  assumes "valid_input csv"
  shows "\<exists>out df. preProcess csv Nroll keepID = Inr (out, df)
    \<and> map_of df (''YEAR'', LStr '''') = Some (Int64 (map year (row_labels csv)))
    \<and> map_of df (''DAYOFYEAR'', LStr '''')
         = Some (Int64 (map (\<lambda>x. int (tm_yday x)) (row_labels csv)))
    \<and> map_of df (''HOUR'', LStr '''') = Some (Int64 (map (\<lambda>x. int (hour x)) (row_labels csv)))
    \<and> ''TIMESTAMP'' \<notin> (fst \<circ> fst) ` set df
    \<and> list_all (\<lambda>x. 1 \<le> tm_yday x \<and> tm_yday x \<le> 366 \<and> hour x \<le> 23) (row_labels csv)
    \<and> tm_yday (Datetime 2024 3 1 0 0) = 61 \<and> tm_yday (Datetime 2023 3 1 0 0) = 60
    \<and> tm_yday (Datetime 2023 1 1 0 0) = 1"
proof -
  have run: "runnable csv" using assms by (rule valid_runnable)
  let ?df0 = "prepared csv keepID"
  let ?df = "raw_part ?df0 @ rolling_part Nroll ?df0 @ calendar_part ?df0"
  have p: "preProcess csv Nroll keepID = Inr (progress Nroll keepID, ?df)"
    by (rule preProcess_closed [OF run])
  have y: "map_of ?df (''YEAR'', LStr '''') = Some (Int64 (map year (row_labels csv)))"
    and d: "map_of ?df (''DAYOFYEAR'', LStr '''')
         = Some (Int64 (map (\<lambda>x. int (tm_yday x)) (row_labels csv)))"
    and h: "map_of ?df (''HOUR'', LStr '''') = Some (Int64 (map (\<lambda>x. int (hour x)) (row_labels csv)))"
    unfolding map_of_calendar_closed by (simp_all add: calendar_part_def row_labels_prepared)
  have t: "''TIMESTAMP'' \<notin> (fst \<circ> fst) ` set ?df"
    by (rule no_timestamp_closed [OF run])
  have r: "list_all (\<lambda>x. 1 \<le> tm_yday x \<and> tm_yday x \<le> 366 \<and> hour x \<le> 23) (row_labels csv)"
    unfolding list_all_iff
  proof
    fix x assume "x \<in> set (row_labels csv)"
    then have v: "valid_datetime x" using assms valid_rows by blast
    then have "hour x \<le> 23" by (simp add: valid_datetime_def)
    with tm_yday_range [OF v] show "1 \<le> tm_yday x \<and> tm_yday x \<le> 366 \<and> hour x \<le> 23"
      by simp
  qed
  have m: "tm_yday (Datetime 2024 3 1 0 0) = 61" "tm_yday (Datetime 2023 3 1 0 0) = 60"
    "tm_yday (Datetime 2023 1 1 0 0) = 1"
    by (simp_all add: tm_yday_def days_before_month_def DAYS_BEFORE_MONTH_def is_leap_def)
  show ?thesis using p y d h t r m by blast
qed

theorem calendar_columns_witness:
  "valid_input ex_csv
   \<and> (\<exists>out df. preProcess ex_csv 3 False = Inr (out, df)
        \<and> map_of df (''YEAR'', LStr '''') = Some (Int64 [2012, 2012, 2012])
        \<and> map_of df (''DAYOFYEAR'', LStr '''') = Some (Int64 [1, 1, 1])
        \<and> map_of df (''HOUR'', LStr '''') = Some (Int64 [1, 2, 3])
        \<and> ''TIMESTAMP'' \<notin> (fst \<circ> fst) ` set df)"
proof -
  have d: "map (\<lambda>x. int (tm_yday x)) (row_labels ex_csv) = [1, 1, 1]"
    unfolding ex_csv_rows by code_simp
  from calendar_columns [OF ex_csv_valid, of 3 False] obtain out df where
    "preProcess ex_csv 3 False = Inr (out, df)"
    "map_of df (''YEAR'', LStr '''') = Some (Int64 (map year (row_labels ex_csv)))"
    "map_of df (''DAYOFYEAR'', LStr '''')
         = Some (Int64 (map (\<lambda>x. int (tm_yday x)) (row_labels ex_csv)))"
    "map_of df (''HOUR'', LStr '''') = Some (Int64 (map (\<lambda>x. int (hour x)) (row_labels ex_csv)))"
    "''TIMESTAMP'' \<notin> (fst \<circ> fst) ` set df"
    by blast
  then show ?thesis using ex_csv_valid unfolding d by (auto simp: ex_csv_rows)
qed

subsection \<open>One row per timestamp\<close>

text \<open>
  Claim C6: for a valid file with N distinct timestamps, each with a record for every
  one of the ten zones, \<open>preProcess\<close> returns a frame in which every column has exactly N
  entries, one per distinct timestamp, in ascending order of the timestamps: row \<open>i\<close>
  is the row of the \<open>i\<close>-th timestamp of the ascending list, as its calendar columns
  show.
\<close>

theorem one_row_per_timestamp:
  assumes "valid_input csv"
  shows "\<exists>out df. preProcess csv Nroll keepID = Inr (out, df)
    \<and> df \<noteq> []
    \<and> list_all (\<lambda>c. series_length (snd c) = card (fst ` set (index csv))) df
    \<and> length (row_labels csv) = card (fst ` set (index csv))
    \<and> set (row_labels csv) = fst ` set (index csv)
    \<and> sorted (map timestamp_value (row_labels csv))
    \<and> map_of df (''YEAR'', LStr '''') = Some (Int64 (map year (row_labels csv)))
    \<and> map_of df (''DAYOFYEAR'', LStr '''')
         = Some (Int64 (map (\<lambda>x. int (tm_yday x)) (row_labels csv)))
    \<and> map_of df (''HOUR'', LStr '''') = Some (Int64 (map (\<lambda>x. int (hour x)) (row_labels csv)))"
proof -
  have run: "runnable csv" using assms by (rule valid_runnable)
  let ?pre = "prepared csv keepID"
  let ?res = "raw_part ?pre @ rolling_part Nroll ?pre @ calendar_part ?pre"
  have p: "preProcess csv Nroll keepID = Inr (progress Nroll keepID, ?res)"
    by (rule preProcess_closed [OF run])
  have ne: "?res \<noteq> []" by (simp add: calendar_part_def)
  have len: "list_all (\<lambda>c. series_length (snd c) = card (fst ` set (index csv))) ?res"
    unfolding list_all_iff
    using lengths_closed [of _ ?pre Nroll]
    by (auto simp: row_labels_prepared length_row_labels simp del: set_append)
  have y: "map_of ?res (''YEAR'', LStr '''') = Some (Int64 (map year (row_labels csv)))"
    and d: "map_of ?res (''DAYOFYEAR'', LStr '''')
         = Some (Int64 (map (\<lambda>x. int (tm_yday x)) (row_labels csv)))"
    and h: "map_of ?res (''HOUR'', LStr '''') = Some (Int64 (map (\<lambda>x. int (hour x)) (row_labels csv)))"
    unfolding map_of_calendar_closed by (simp_all add: calendar_part_def row_labels_prepared)
  show ?thesis
    using p ne len y d h length_row_labels [of csv] set_row_labels [of csv] sorted_row_labels [of csv]
    by blast
qed

lemma ex_csv_card: "card (fst ` set (index ex_csv)) = 3"
  using length_row_labels [of ex_csv] by (simp add: ex_csv_rows)

theorem one_row_per_timestamp_witness:
  "valid_input ex_csv
   \<and> (\<exists>out df. preProcess ex_csv 3 False = Inr (out, df)
        \<and> df \<noteq> []
        \<and> list_all (\<lambda>c. series_length (snd c) = 3) df
        \<and> map_of df (''HOUR'', LStr '''') = Some (Int64 [1, 2, 3]))"
proof -
  from one_row_per_timestamp [OF ex_csv_valid, of 3 False] obtain out df where
    "preProcess ex_csv 3 False = Inr (out, df)" "df \<noteq> []"
    "list_all (\<lambda>c. series_length (snd c) = card (fst ` set (index ex_csv))) df"
    "map_of df (''HOUR'', LStr '''') = Some (Int64 (map (\<lambda>x. int (hour x)) (row_labels ex_csv)))"
    by blast
  then show ?thesis using ex_csv_valid by (auto simp: ex_csv_rows ex_csv_card)
qed

subsection \<open>Looking up a cell of the frame returned\<close>

lemma map_of_zip_distinct_nth:
  "distinct xs \<Longrightarrow> i < length xs \<Longrightarrow> i < length ys \<Longrightarrow>
   map_of (zip xs ys) (xs ! i) = Some (ys ! i)"
proof (induction xs arbitrary: ys i)
  case Nil
  then show ?case by simp
next
  case (Cons x xs)
  then show ?case
    by (cases ys; cases i) auto
qed

lemma cell_at_nth:
  assumes "distinct ix" "p < length ix" "p < length xs" "ix ! p = (t, z)"
  shows "cell_at ix xs t z = xs ! p"
  using map_of_zip_distinct_nth [OF assms(1,2,3)] assms(4) by (simp add: cell_at_def)

lemma map_of_filter_name:
  "map_of (filter (\<lambda>c. fst c \<noteq> a) xs) n = (if n = a then None else map_of xs n)"
  by (induction xs) auto

lemma map_of_columns_prepared:
  "map_of (columns (prepared csv k)) n
     = (if \<not> k \<and> n = ''ID'' then None else map_option (map (fill 0)) (map_of (columns csv) n))"
proof -
  have "map_of (columns (fillna 0 csv)) n = map_option (map (fill 0)) (map_of (columns csv) n)"
    by (simp add: fillna_def map_of_map)
  then show ?thesis by (simp add: prepared_def map_of_filter_name)
qed

lemma map_of_concat_blocks:
  assumes "i \<in> set zs" "map_of (f i) k = Some v" "\<And>j. j \<noteq> i \<Longrightarrow> map_of (f j) k = None"
  shows "map_of (concat (map f zs)) k = Some v"
  using assms(1)
proof (induction zs)
  case Nil
  then show ?case by simp
next
  case (Cons j zs)
  show ?case
  proof (cases "j = i")
    case True
    then show ?thesis using assms(2) by (simp add: map_add_def)
  next
    case False
    then have "i \<in> set zs" using Cons.prems by simp
    then show ?thesis using Cons.IH assms(3) [OF False] by (simp add: map_add_def)
  qed
qed

lemma map_of_rolling_part:
  assumes "1 < N" "q \<in> set wind_fields" "i \<in> set wind_measurements"
    "map_of (columns df0) q = Some xs"
  shows "map_of (rolling_part N df0) (q @ dname N, LInt i)
    = Some (Float64 (rolling_mean (nat N) 1 (pivot_column df0 xs i)))"
proof -
  let ?v = "Float64 (rolling_mean (nat N) 1 (pivot_column df0 xs i))"
  let ?k = "(q @ dname N, LInt i)"
  have field: "map_of (concat (map (rolling_column N df0 i) wind_fields)) ?k = Some ?v"
  proof (rule map_of_concat_blocks [where f = "rolling_column N df0 i" and i = q, OF assms(2)])
    show "map_of (rolling_column N df0 i q) ?k = Some ?v"
      using assms(4) by (simp add: rolling_column_def)
  next
    fix q' assume "q' \<noteq> q"
    then show "map_of (rolling_column N df0 i q') ?k = None"
      by (auto simp: rolling_column_def split: option.splits)
  qed
  have "map_of (concat (map (\<lambda>j. concat (map (rolling_column N df0 j) wind_fields))
           wind_measurements)) ?k = Some ?v"
  proof (rule map_of_concat_blocks
      [where f = "\<lambda>j. concat (map (rolling_column N df0 j) wind_fields)" and i = i,
        OF assms(3) field])
    fix j assume "j \<noteq> i"
    then have "?k \<notin> fst ` set (concat (map (rolling_column N df0 j) wind_fields))"
      by (auto dest!: keys_rolling_column [OF imageI])
    then show "map_of (concat (map (rolling_column N df0 j) wind_fields)) ?k = None"
      by (simp add: map_of_eq_None_iff)
  qed
  then show ?thesis using assms(1) by (simp add: rolling_part_def)
qed

lemma map_of_raw_closed:
  "map_of (raw_part df0) key = Some v \<Longrightarrow>
   map_of (raw_part df0 @ rolling_part N df0 @ calendar_part df0) key = Some v"
  by (rule map_of_append_left)

lemma map_of_rolling_closed:
  assumes "runnable csv" "1 < N" "q \<in> set wind_fields" "i \<in> set wind_measurements"
    "map_of (columns (prepared csv k)) q = Some xs"
  shows "map_of (raw_part (prepared csv k) @ rolling_part N (prepared csv k)
            @ calendar_part (prepared csv k)) (q @ dname N, LInt i)
    = Some (Float64 (rolling_mean (nat N) 1 (pivot_column (prepared csv k) xs i)))"
proof -
  have "(q @ dname N, LInt i) \<notin> fst ` set (raw_part (prepared csv k))"
    using keys_raw_part [of "(q @ dname N, LInt i)" "prepared csv k"]
      documented_prepared(1) [of csv k] rolling_name_fresh(1) [OF assms(3), of N] assms(1)
    by (auto simp: runnable_def)
  then have "map_of (raw_part (prepared csv k)) (q @ dname N, LInt i) = None"
    by (simp add: map_of_eq_None_iff)
  then show ?thesis
    using map_of_rolling_part [OF assms(2,3,4,5)] by (simp add: map_add_def)
qed

subsection \<open>The raw wind columns stay\<close>

text \<open>
  Claim C2: for every \<open>Nroll > 1\<close>, every wind field U10, V10, U100, V100 and every
  zone 1..10, the frame returned still has the raw column of that field and zone, with
  the values it has when no rolling mean is computed (\<open>Nroll = 1\<close>), next to the new
  column \<open>(field_rmN, zone)\<close>.
\<close>

theorem raw_columns_kept:
  assumes "runnable csv" "1 < Nroll" "q \<in> set wind_fields" "z \<in> set wind_measurements"
  shows "\<exists>out df out1 df1 raw rm.
      preProcess csv Nroll keepID = Inr (out, df)
    \<and> preProcess csv 1 keepID = Inr (out1, df1)
    \<and> map_of df1 (q, LInt z) = Some raw
    \<and> map_of df (q, LInt z) = Some raw
    \<and> map_of df (q @ ''_rm'' @ str_int Nroll, LInt z) = Some rm"
proof -
  let ?pre = "prepared csv keepID"
  from raw_lookup [OF assms(1,3,4), of keepID] obtain xs where
    xs: "map_of (columns ?pre) q = Some xs"
    and raw: "map_of (raw_part ?pre) (q, LInt z) = Some (Float64 (pivot_column ?pre xs z))"
    by blast
  have a: "map_of (raw_part ?pre @ rolling_part Nroll ?pre @ calendar_part ?pre) (q, LInt z)
      = Some (Float64 (pivot_column ?pre xs z))"
    using raw by (rule map_of_raw_closed)
  have b: "map_of (raw_part ?pre @ rolling_part 1 ?pre @ calendar_part ?pre) (q, LInt z)
      = Some (Float64 (pivot_column ?pre xs z))"
    using raw by (rule map_of_raw_closed)
  have c: "map_of (raw_part ?pre @ rolling_part Nroll ?pre @ calendar_part ?pre)
       (q @ ''_rm'' @ str_int Nroll, LInt z)
      = Some (Float64 (rolling_mean (nat Nroll) 1 (pivot_column ?pre xs z)))"
    using map_of_rolling_closed [OF assms xs] by (simp add: dname_def)
  show ?thesis
    using preProcess_closed [OF assms(1), of Nroll keepID]
      preProcess_closed [OF assms(1), of 1 keepID] a b c
    by blast
qed

lemma ex_wind: "''U10'' \<in> set wind_fields" "1 \<in> set wind_measurements"
  by (simp_all add: wind_fields_def wind_measurements_def)

theorem raw_columns_kept_witness:
  "runnable ex_csv \<and> (1::int) < 3 \<and> ''U10'' \<in> set wind_fields \<and> 1 \<in> set wind_measurements
   \<and> (\<exists>out df out1 df1 raw rm.
        preProcess ex_csv 3 False = Inr (out, df)
      \<and> preProcess ex_csv 1 False = Inr (out1, df1)
      \<and> map_of df1 (''U10'', LInt 1) = Some raw
      \<and> map_of df (''U10'', LInt 1) = Some raw
      \<and> map_of df (''U10_rm3'', LInt 1) = Some rm)"
proof -
  have h: "(1::int) < 3" by simp
  show ?thesis
    using raw_columns_kept [OF ex_csv_runnable h ex_wind, of False] ex_csv_runnable ex_wind
    by (simp add: str_int_3)
qed

subsection \<open>Missing values are filled before the ID column is dropped or kept\<close>

lemma pivot_cell:
  assumes "distinct (index csv)" "map_of (columns csv) n = Some xs" "k \<or> n \<noteq> ''ID''"
    "p < length (index csv)" "p < length xs" "index csv ! p = (t, z)"
    "i < length (row_labels csv)" "row_labels csv ! i = t"
  shows "\<exists>col. map_of (raw_part (prepared csv k)) (n, LInt z) = Some (Float64 col)
     \<and> length col = length (row_labels csv) \<and> col ! i = fill 0 (xs ! p)"
proof -
  let ?pre = "prepared csv k"
  have cols: "map_of (columns ?pre) n = Some (map (fill 0) xs)"
    using assms(2,3) by (auto simp: map_of_columns_prepared)
  have "(t, z) \<in> set (index csv)"
    using assms(4,6) by (metis nth_mem)
  then have z: "z \<in> set (zone_labels ?pre)"
    by (force simp: zone_labels_set index_prepared)
  have look: "map_of (raw_part ?pre) (n, LInt z)
      = Some (Float64 (pivot_column ?pre (map (fill 0) xs) z))"
    using cols z by (simp add: map_of_raw_part)
  have "pivot_column ?pre (map (fill 0) xs) z ! i
      = cell_at (index csv) (map (fill 0) xs) t z"
    using assms(7,8) by (simp add: pivot_column_def row_labels_prepared index_prepared)
  also have "\<dots> = map (fill 0) xs ! p"
    using assms(1,4,5,6) by (intro cell_at_nth) simp_all
  also have "\<dots> = fill 0 (xs ! p)"
    using assms(5) by simp
  finally show ?thesis
    using look by (simp add: length_pivot_column row_labels_prepared)
qed

text \<open>
  Claim C9: the missing values are filled with 0 before the ID column is dropped or
  kept, in every field of the file and not only in the measurements. With \<open>keepID\<close>
  true, a record at position \<open>p\<close> of the file whose value in a field \<open>n\<close> (the ID for
  one) is missing appears in the frame returned with the value 0, in the column of that
  field and of the record's zone, at the row of the record's timestamp.
\<close>

theorem missing_id_filled:
  assumes "runnable csv" "map_of (columns csv) n = Some xs"
    "p < length (index csv)" "p < length xs" "xs ! p = None" "index csv ! p = (t, z)"
    "i < length (row_labels csv)" "row_labels csv ! i = t"
  shows "\<exists>out df col. preProcess csv Nroll True = Inr (out, df)
    \<and> map_of df (n, LInt z) = Some (Float64 col) \<and> col ! i = Some 0"
proof -
  have d: "distinct (index csv)" using assms(1) by (simp add: runnable_def)
  from pivot_cell [OF d assms(2) _ assms(3,4,6,7,8), of True] obtain col where
    "map_of (raw_part (prepared csv True)) (n, LInt z) = Some (Float64 col)"
    "col ! i = fill 0 (xs ! p)"
    by auto
  then show ?thesis
    using preProcess_closed [OF assms(1), of Nroll True] assms(5)
      map_of_raw_closed [of "prepared csv True" "(n, LInt z)" "Float64 col" Nroll]
    by (auto simp: fill_def)
qed

lemma ex_csv_id:
  "map_of (columns ex_csv) ''ID'' = Some (None # map (\<lambda>i. Some (of_nat i)) [2..<31])"
  by (simp add: ex_csv_def)

lemma ex_csv_first: "index ex_csv ! 0 = (Datetime 2012 1 1 2 0, 1)"
  by (simp add: ex_csv_def)

lemma ex_csv_length: "length (index ex_csv) = 30"
  by (simp add: ex_csv_def)

theorem missing_id_filled_witness:
  "runnable ex_csv
   \<and> map_of (columns ex_csv) ''ID'' = Some (None # map (\<lambda>i. Some (of_nat i)) [2..<31])
   \<and> index ex_csv ! 0 = (Datetime 2012 1 1 2 0, 1)
   \<and> row_labels ex_csv ! 1 = Datetime 2012 1 1 2 0
   \<and> (\<exists>out df col. preProcess ex_csv 3 True = Inr (out, df)
        \<and> map_of df (''ID'', LInt 1) = Some (Float64 col) \<and> col ! 1 = Some 0)"
proof -
  have r: "row_labels ex_csv ! 1 = Datetime 2012 1 1 2 0" "1 < length (row_labels ex_csv)"
    by (simp_all add: ex_csv_rows)
  have p: "0 < length (index ex_csv)"
    "0 < length (None # map (\<lambda>i. Some (rat_of_nat i)) [2..<31])"
    "(None # map (\<lambda>i. Some (rat_of_nat i)) [2..<31]) ! 0 = None"
    by (simp_all add: ex_csv_length)
  show ?thesis
    using missing_id_filled [OF ex_csv_runnable ex_csv_id p ex_csv_first r(2,1), of 3]
      ex_csv_runnable ex_csv_id ex_csv_first r(1)
    by simp
qed

subsection \<open>The rolling means\<close>











subsection \<open>The flat labels of the training cell\<close>

lemma digit_char_not_underscore: "d < 10 \<Longrightarrow> digit_char d \<noteq> CHR ''_''"
proof -
  assume "d < 10"
  then have "d = 0 \<or> d = 1 \<or> d = 2 \<or> d = 3 \<or> d = 4 \<or> d = 5 \<or> d = 6 \<or> d = 7 \<or> d = 8 \<or> d = 9"
    by arith
  then show ?thesis by (elim disjE) (simp_all add: digit_char_def)
qed

lemma digits_last: "digits n \<noteq> [] \<and> last (digits n) = digit_char (n mod 10)"
  by (subst (1 2) digits.simps) simp

lemma str_int_last: "str_int i \<noteq> [] \<and> last (str_int i) \<noteq> CHR ''_''"
  using digits_last [of "nat i"] digits_last [of "nat (- i)"]
    digit_char_not_underscore [of "nat i mod 10"] digit_char_not_underscore [of "nat (- i) mod 10"]
  by (simp add: str_int_def)

lemma strip_zone: "strip_underscore (f @ ''_'' @ str_int z) = Inr (f @ ''_'' @ str_int z)"
  using str_int_last [of z] by (simp add: strip_underscore_def)

lemma strip_blank: "strip_underscore (f @ ''_'' @ '''') = Inr f"
  by (simp add: strip_underscore_def butlast_append)

lemma comprehension_filter:
  "(\<And>x. x \<in> set xs \<Longrightarrow> c x = Inr (P x)) \<Longrightarrow>
   (\<And>x. x \<in> set xs \<Longrightarrow> P x \<Longrightarrow> f x = Inr (g x)) \<Longrightarrow>
   comprehension c f xs = Inr (map g (filter P xs))"
  by (induction xs) auto

lemma rename_train_hier:
  assumes T: "\<And>k. k \<in> set T \<Longrightarrow> fst k = ''TARGETVAR'' \<and> (\<exists>z. snd k = LInt z)"
    and P: "\<And>k. k \<in> set P \<Longrightarrow>
        fst k \<noteq> ''TARGETVAR'' \<and> (snd k = LStr '''' \<or> (\<exists>z. snd k = LInt z))"
  shows "rename_train (map (\<lambda>(f, l). Tup f l) (T @ P))
    = Inr (map (\<lambda>(f, l). if l = LStr '''' then f else f @ ''_'' @ str_level l) (T @ P))"
proof -
  let ?tup = "\<lambda>(f, l). Tup f l"
  let ?join = "\<lambda>(f, l). f @ ''_'' @ str_level l"
  let ?flat = "\<lambda>(f, l). if l = LStr '''' then f else f @ ''_'' @ str_level l"
  let ?items = "map ?tup (T @ P)"
  define J where "J it = (case it of Tup f l \<Rightarrow> f @ ''_'' @ str_level l | Str s \<Rightarrow> [])" for it
  define isP where "isP it = (case it of Tup f l \<Rightarrow> f \<noteq> ''TARGETVAR'' | Str s \<Rightarrow> False)" for it
  define isT where "isT it = (case it of Tup f l \<Rightarrow> f = ''TARGETVAR'' | Str s \<Rightarrow> False)" for it
  have p1: "comprehension is_predictor joined ?items = Inr (map J (filter isP ?items))"
    by (rule comprehension_filter)
       (auto simp: is_predictor_def joined_def J_def isP_def)
  have t1: "comprehension is_target joined ?items = Inr (map J (filter isT ?items))"
    by (rule comprehension_filter)
       (auto simp: is_target_def joined_def J_def isT_def)
  have fP: "filter isP ?items = map ?tup P"
    using T P by (auto simp: isP_def filter_map comp_def split_def filter_empty_conv filter_id_conv)
  have fT: "filter isT ?items = map ?tup T"
    using T P by (auto simp: isT_def filter_map comp_def split_def filter_empty_conv filter_id_conv)
  have jP: "map J (map ?tup P) = map ?join P" and jT: "map J (map ?tup T) = map ?join T"
    by (simp_all add: J_def split_def)
  have s1: "comprehension (\<lambda>_. Inr True) strip_underscore (map ?join P) = Inr (map ?flat P)"
  proof -
    have "strip_underscore (?join k) = Inr (?flat k)" if "k \<in> set P" for k
      using P [OF that] strip_zone [of "fst k"] strip_blank [of "fst k"]
      by (cases k) auto
    then have "comprehension (\<lambda>_. Inr True) (\<lambda>k. strip_underscore (?join k)) P
        = Inr (map ?flat P)"
      by (rule comprehension_total)
    moreover have "comprehension (\<lambda>_. Inr True) strip_underscore (map h xs)
        = comprehension (\<lambda>_. Inr True) (\<lambda>k. strip_underscore (h k)) xs" for h :: "string \<times> level \<Rightarrow> string" and xs
      by (induction xs) (auto split: sum.splits)
    ultimately show ?thesis by simp
  qed
  have "?join k = ?flat k" if "k \<in> set T" for k
    using T [OF that] by (cases k) auto
  then have jflat: "map ?join T = map ?flat T"
    by (intro map_cong) simp_all
  have "rename_train ?items = Inr (map ?flat T @ map ?flat P)"
    unfolding rename_train_def
    by (simp only: p1 t1 fP fT jP jT s1 jflat sum.case)
  then show ?thesis by simp
qed

lemma training_shape:
  assumes "map fst (columns csv) = fields_train"
  shows "\<exists>T P. raw_part (prepared csv False) @ rolling_part N (prepared csv False)
        @ calendar_part (prepared csv False) = T @ P
    \<and> (\<forall>c \<in> set T. fst (fst c) = ''TARGETVAR'' \<and> (\<exists>z. snd (fst c) = LInt z))
    \<and> (\<forall>c \<in> set P. fst (fst c) \<noteq> ''TARGETVAR''
          \<and> (snd (fst c) = LStr '''' \<or> (\<exists>z. snd (fst c) = LInt z)))"
proof -
  let ?pre = "prepared csv False"
  let ?blk = "\<lambda>(n, xs). map (\<lambda>z. ((n, LInt z), Float64 (pivot_column ?pre xs z))) (zone_labels ?pre)"
  have names: "map fst (columns ?pre) = [''TARGETVAR'', ''U10'', ''V10'', ''U100'', ''V100'']"
    using assms by (simp add: names_prepared fields_train_def)
  then obtain c cs where cols: "columns ?pre = c # cs" and c: "fst c = ''TARGETVAR''"
    and cs: "map fst cs = [''U10'', ''V10'', ''U100'', ''V100'']"
    by (auto simp: map_eq_Cons_conv)
  have raw: "raw_part ?pre = ?blk c @ concat (map ?blk cs)"
    by (simp add: raw_part_def cols)
  let ?T = "?blk c"
  let ?P = "concat (map ?blk cs) @ rolling_part N ?pre @ calendar_part ?pre"
  have T: "\<forall>x \<in> set ?T. fst (fst x) = ''TARGETVAR'' \<and> (\<exists>z. snd (fst x) = LInt z)"
    using c by (auto simp: split_def)
  have P: "fst (fst x) \<noteq> ''TARGETVAR'' \<and> (snd (fst x) = LStr '''' \<or> (\<exists>z. snd (fst x) = LInt z))"
    if "x \<in> set ?P" for x
  proof -
    from that have "x \<in> set (concat (map ?blk cs)) \<or> x \<in> set (rolling_part N ?pre)
        \<or> x \<in> set (calendar_part ?pre)"
      by (simp only: set_append Un_iff)
    then consider "x \<in> set (concat (map ?blk cs))"
      | "x \<in> set (rolling_part N ?pre)" | "x \<in> set (calendar_part ?pre)"
      by blast
    then show ?thesis
    proof cases
      case 1
      then obtain d z where "d \<in> set cs" "fst x = (fst d, LInt z)"
        by (auto simp: split_def)
      moreover from this(1) have "fst d \<in> set (map fst cs)" by simp
      ultimately show ?thesis unfolding cs by auto
    next
      case 2
      from keys_rolling_part [of "fst x", OF imageI [OF 2]] show ?thesis
        by (auto simp: wind_fields_def dname_def)
    next
      case 3
      then show ?thesis by (auto simp: calendar_part_def)
    qed
  qed
  have "raw_part ?pre @ rolling_part N ?pre @ calendar_part ?pre = ?T @ ?P"
    by (simp add: raw)
  then show ?thesis using T P by blast
qed

lemma set_columns_relabel:
  "set_columns (map g (map fst df)) df = Inr (map (\<lambda>c. (g (fst c), snd c)) df)"
proof -
  have "zip (map g (map fst df)) (map snd df) = map (\<lambda>c. (g (fst c), snd c)) df"
    by (induction df) auto
  then show ?thesis by (simp add: set_columns_def)
qed

text \<open>
  Claim C8: in the training cell, run on a training file in the documented format, every
  column of the frame that \<open>preProcess\<close> returns gets its flat label: a column
  \<open>(field, zone)\<close> is relabelled \<open>field_zone\<close>, a column \<open>(field, '')\<close> (the calendar
  columns) is relabelled \<open>field\<close>, without an underscore at the end; every label is of
  one of these two kinds; and all the TARGETVAR columns come before all the others.
\<close>

theorem flat_labels_targets_first:
  assumes "runnable csv" "map fst (columns csv) = fields_train"
  shows "\<exists>out df n. preProcess csv 3 False = Inr (out, df)
    \<and> training_feather csv
        = Inr (map (\<lambda>((f, l), s). (if l = LStr '''' then f else f @ ''_'' @ str_level l, s)) df)
    \<and> n \<le> length df
    \<and> list_all (\<lambda>c. fst (fst c) = ''TARGETVAR'') (take n df)
    \<and> list_all (\<lambda>c. fst (fst c) \<noteq> ''TARGETVAR'') (drop n df)
    \<and> list_all (\<lambda>c. snd (fst c) = LStr '''' \<or> (\<exists>z. snd (fst c) = LInt z)) df"
proof -
  let ?pre = "prepared csv False"
  let ?res = "raw_part ?pre @ rolling_part 3 ?pre @ calendar_part ?pre"
  let ?flat = "\<lambda>(f, l). if l = LStr '''' then f else f @ ''_'' @ str_level l"
  have p: "preProcess csv 3 False = Inr (progress 3 False, ?res)"
    by (rule preProcess_closed [OF assms(1)])
  from training_shape [OF assms(2), of 3] obtain T P where
    tp: "?res = T @ P"
    and T: "\<forall>c \<in> set T. fst (fst c) = ''TARGETVAR'' \<and> (\<exists>z. snd (fst c) = LInt z)"
    and P: "\<forall>c \<in> set P. fst (fst c) \<noteq> ''TARGETVAR''
          \<and> (snd (fst c) = LStr '''' \<or> (\<exists>z. snd (fst c) = LInt z))"
    by blast
  have cv: "columns_values ?res = map (\<lambda>(f, l). Tup f l) (map fst T @ map fst P)"
    by (simp add: columns_values_def tp split_def)
  have rn: "rename_train (columns_values ?res) = Inr (map ?flat (map fst T @ map fst P))"
    unfolding cv using T P by (intro rename_train_hier) auto
  have names: "map ?flat (map fst T @ map fst P) = map ?flat (map fst ?res)"
    by (simp add: tp)
  have "set_columns (map ?flat (map fst ?res)) ?res
      = Inr (map (\<lambda>c. (?flat (fst c), snd c)) ?res)"
    by (rule set_columns_relabel)
  also have "map (\<lambda>c. (?flat (fst c), snd c)) ?res
      = map (\<lambda>((f, l), s). (if l = LStr '''' then f else f @ ''_'' @ str_level l, s)) ?res"
    by (simp add: split_def)
  finally have sc: "set_columns (map ?flat (map fst ?res)) ?res
      = Inr (map (\<lambda>((f, l), s). (if l = LStr '''' then f else f @ ''_'' @ str_level l, s)) ?res)" .
  have tf: "training_feather csv
      = Inr (map (\<lambda>((f, l), s). (if l = LStr '''' then f else f @ ''_'' @ str_level l, s)) ?res)"
    unfolding training_feather_def p by (simp only: sum.case prod.case rn names sc)
  have n: "length T \<le> length ?res" "take (length T) ?res = T" "drop (length T) ?res = P"
    by (simp_all add: tp)
  have a: "list_all (\<lambda>c. fst (fst c) = ''TARGETVAR'') (take (length T) ?res)"
    unfolding n(2) using T by (simp add: list_all_iff)
  have b: "list_all (\<lambda>c. fst (fst c) \<noteq> ''TARGETVAR'') (drop (length T) ?res)"
    unfolding n(3) using P by (simp add: list_all_iff)
  have c: "list_all (\<lambda>c. snd (fst c) = LStr '''' \<or> (\<exists>z. snd (fst c) = LInt z)) ?res"
    unfolding tp using T P by (auto simp: list_all_iff)
  show ?thesis using p tf n(1) a b c by blast
qed

lemma ex_csv_fields: "map fst (columns ex_csv) = fields_train"
  by (simp add: ex_csv_def fields_train_def)

theorem flat_labels_targets_first_witness:
  "runnable ex_csv \<and> map fst (columns ex_csv) = fields_train
   \<and> (\<exists>out df n. preProcess ex_csv 3 False = Inr (out, df)
        \<and> training_feather ex_csv
            = Inr (map (\<lambda>((f, l), s). (if l = LStr '''' then f else f @ ''_'' @ str_level l, s)) df)
        \<and> n \<le> length df
        \<and> list_all (\<lambda>c. fst (fst c) = ''TARGETVAR'') (take n df)
        \<and> list_all (\<lambda>c. fst (fst c) \<noteq> ''TARGETVAR'') (drop n df))"
  using flat_labels_targets_first [OF ex_csv_runnable ex_csv_fields] ex_csv_runnable ex_csv_fields
  by blast

end
